theory Spec2Isabelle
  imports Complex_Main "HOL-Library.Word"
begin

section \<open>Numeric values\<close>

text \<open>
  The library computes in C++ \<^verbatim>\<open>double\<close>. A value is modelled as a real number, one of
  the two infinities, or NaN. The code tests for NaN (\<^verbatim>\<open>std::isnan\<close>) and divides and
  takes logarithms without guards, so the three special values are kept. Rounding, overflow of
  finite results and the sign of zero are not modelled: a finite result is the exact real
  result, and a zero divisor counts as positive zero.
\<close>

datatype double = NaN | PInf | NInf | Num real

fun isnan :: "double \<Rightarrow> bool" where
  "isnan NaN = True"
| "isnan _ = False"

fun isfinite :: "double \<Rightarrow> bool" where
  "isfinite (Num _) = True"
| "isfinite _ = False"

fun dneg :: "double \<Rightarrow> double" where
  "dneg NaN = NaN"
| "dneg PInf = NInf"
| "dneg NInf = PInf"
| "dneg (Num x) = Num (- x)"

fun dadd :: "double \<Rightarrow> double \<Rightarrow> double" where
  "dadd NaN _ = NaN"
| "dadd _ NaN = NaN"
| "dadd PInf NInf = NaN"
| "dadd NInf PInf = NaN"
| "dadd PInf _ = PInf"
| "dadd _ PInf = PInf"
| "dadd NInf _ = NInf"
| "dadd _ NInf = NInf"
| "dadd (Num x) (Num y) = Num (x + y)"

definition dsub :: "double \<Rightarrow> double \<Rightarrow> double" where
  "dsub a b = dadd a (dneg b)"

text \<open>The sign of a non-NaN value: \<open>1\<close>, \<open>0\<close> or \<open>-1\<close>.\<close>

fun dsgn :: "double \<Rightarrow> real" where
  "dsgn NaN = 0"
| "dsgn PInf = 1"
| "dsgn NInf = - 1"
| "dsgn (Num x) = sgn x"

definition inf_of_sign :: "real \<Rightarrow> double" where
  "inf_of_sign s = (if s = 0 then NaN else if 0 < s then PInf else NInf)"

fun dmul :: "double \<Rightarrow> double \<Rightarrow> double" where
  "dmul NaN _ = NaN"
| "dmul _ NaN = NaN"
| "dmul (Num x) (Num y) = Num (x * y)"
| "dmul a b = inf_of_sign (dsgn a * dsgn b)"

fun ddiv :: "double \<Rightarrow> double \<Rightarrow> double" where
  "ddiv NaN _ = NaN"
| "ddiv _ NaN = NaN"
| "ddiv (Num x) (Num y) = (if y = 0 then inf_of_sign (sgn x) else Num (x / y))"
| "ddiv (Num x) _ = Num 0"
| "ddiv a (Num y) = inf_of_sign (dsgn a * (if y < 0 then - 1 else 1))"
| "ddiv _ _ = NaN"

fun dabs :: "double \<Rightarrow> double" where
  "dabs NaN = NaN"
| "dabs PInf = PInf"
| "dabs NInf = PInf"
| "dabs (Num x) = Num \<bar>x\<bar>"

text \<open>\<^verbatim>\<open>std::pow(x, 2)\<close>.\<close>

definition dpow2 :: "double \<Rightarrow> double" where
  "dpow2 x = dmul x x"

text \<open>Comparisons: every comparison with NaN is false.\<close>

fun dlt :: "double \<Rightarrow> double \<Rightarrow> bool" where
  "dlt NaN _ = False"
| "dlt _ NaN = False"
| "dlt (Num x) (Num y) = (x < y)"
| "dlt NInf b = (b \<noteq> NInf)"
| "dlt a PInf = (a \<noteq> PInf)"
| "dlt _ _ = False"

definition dgt :: "double \<Rightarrow> double \<Rightarrow> bool" where
  "dgt a b = dlt b a"

definition dge :: "double \<Rightarrow> double \<Rightarrow> bool" where
  "dge a b = (\<not> isnan a \<and> \<not> isnan b \<and> \<not> dlt a b)"

text \<open>\<^verbatim>\<open>std::log\<close>: minus infinity at zero, NaN below zero.\<close>

fun dlog :: "double \<Rightarrow> double" where
  "dlog NaN = NaN"
| "dlog PInf = PInf"
| "dlog NInf = NaN"
| "dlog (Num x) = (if x < 0 then NaN else if x = 0 then NInf else Num (ln x))"

fun dexp :: "double \<Rightarrow> double" where
  "dexp NaN = NaN"
| "dexp PInf = PInf"
| "dexp NInf = Num 0"
| "dexp (Num x) = Num (exp x)"

type_synonym Vector = "double list"
type_synonym Matrix = "Vector list"

text \<open>
  \<^verbatim>\<open>Matrix\<close> is a sequence of rows. \<^verbatim>\<open>lines()\<close> is the number of rows and
  \<^verbatim>\<open>columns()\<close> the length of the first row (zero for an empty matrix).
\<close>

definition lines :: "Matrix \<Rightarrow> nat" where
  "lines m = length m"

definition columns :: "Matrix \<Rightarrow> nat" where
  "columns m = (case m of [] \<Rightarrow> 0 | r # _ \<Rightarrow> length r)"

text \<open>Every row \<open>i < r\<close> exists and has an element at every column \<open>j < c\<close>.\<close>

definition covers :: "Matrix \<Rightarrow> nat \<Rightarrow> nat \<Rightarrow> bool" where
  "covers m r c = (r \<le> length m \<and> list_all (\<lambda>row. c \<le> length row) (take r m))"

datatype error =
    OutOfRange      \<comment> \<open>an index past the end of a vector, or \<^verbatim>\<open>pop_back\<close> on an empty one\<close>
  | BadCast         \<comment> \<open>a \<^verbatim>\<open>double\<close> converted to \<^verbatim>\<open>unsigned\<close> outside its range\<close>
  | LastLayerSize   \<comment> \<open>the exception "The last layer must have as much neurons as outputs."\<close>

text \<open>Sequencing of steps that can fail: the first error ends the computation.\<close>

definition ebind :: "error + 'a \<Rightarrow> ('a \<Rightarrow> error + 'b) \<Rightarrow> error + 'b" where
  "ebind m f = (case m of Inl e \<Rightarrow> Inl e | Inr x \<Rightarrow> f x)"

section \<open>Loss functions (cost.hh)\<close>

text \<open>
  Each loss function builds a loss matrix and a gradient matrix of the shape of \<open>real\<close> and fills
  them element by element from \<open>real[i][j]\<close> and \<open>predicted[i][j]\<close>. Reading outside either
  argument is an error of the model.
\<close>

definition elementwise ::
  "(double \<Rightarrow> double \<Rightarrow> double) \<Rightarrow> Matrix \<Rightarrow> Matrix \<Rightarrow> Matrix" where
  "elementwise f real' predicted =
     map (\<lambda>i. map (\<lambda>j. f (real' ! i ! j) (predicted ! i ! j)) [0..<columns real'])
       [0..<lines real']"

definition lossPair ::
  "(double \<Rightarrow> double \<Rightarrow> double) \<Rightarrow> (double \<Rightarrow> double \<Rightarrow> double) \<Rightarrow>
     Matrix \<Rightarrow> Matrix \<Rightarrow> error + (Matrix \<times> Matrix)" where
  "lossPair l g real' predicted =
     (if covers real' (lines real') (columns real') \<and> covers predicted (lines real') (columns real')
      then Inr (elementwise l real' predicted, elementwise g real' predicted)
      else Inl OutOfRange)"

definition L1Loss :: "Matrix \<Rightarrow> Matrix \<Rightarrow> error + (Matrix \<times> Matrix)" where
  "L1Loss real' predicted =
     lossPair (\<lambda>r p. dabs (dsub r p))
       (\<lambda>r p. if dlt r p then Num (- 1) else if dgt r p then Num 1 else Num 0)
       real' predicted"

definition L2Loss :: "Matrix \<Rightarrow> Matrix \<Rightarrow> error + (Matrix \<times> Matrix)" where
  "L2Loss real' predicted =
     lossPair (\<lambda>r p. dmul (Num (1/2)) (dpow2 (dsub r p))) (\<lambda>r p. dsub r p) real' predicted"

text \<open>
  \<^verbatim>\<open>crossEntropyLoss\<close> first takes \<^verbatim>\<open>softmax(predicted)\<close>; \<^verbatim>\<open>softmax\<close> is declared in a header
  that is not among the sources, so it is a parameter here.
\<close>

definition crossEntropyLoss ::
  "(Matrix \<Rightarrow> Matrix) \<Rightarrow> Matrix \<Rightarrow> Matrix \<Rightarrow> error + (Matrix \<times> Matrix)" where
  "crossEntropyLoss softmax real' predicted =
     (let softMax = softmax predicted in
      lossPair (\<lambda>r s. dmul r (dneg (dlog s))) (\<lambda>r s. dsub r s) real' softMax)"

definition binaryCrossEntropyLoss :: "Matrix \<Rightarrow> Matrix \<Rightarrow> error + (Matrix \<times> Matrix)" where
  "binaryCrossEntropyLoss real' predicted =
     lossPair
       (\<lambda>r p. dneg (dadd (dmul r (dlog p)) (dmul (dsub (Num 1) r) (dlog (dsub (Num 1) p)))))
       (\<lambda>r p. ddiv (dsub r p) (dmul p (dsub (Num 1) p)))
       real' predicted"


section \<open>The network (Network.hh)\<close>

datatype Loss = Loss_L1 | Loss_L2 | CrossEntropy | BinaryCrossEntropy
datatype Cost = Cost_L1 | Cost_L2 | Accuracy

type_synonym Dataset = "(Vector \<times> Vector) list"

text \<open>
  The network is written against the virtual interface \<^verbatim>\<open>ILayer\<close> and against helper
  functions of headers that are not among the sources (\<^verbatim>\<open>softmax\<close>, \<^verbatim>\<open>transpose\<close>,
  \<^verbatim>\<open>averageLoss\<close>, the metrics, \<^verbatim>\<open>standardize\<close>, \<^verbatim>\<open>normalize\<close>) and of the standard
  library (\<^verbatim>\<open>std::mt19937\<close>, \<^verbatim>\<open>std::shuffle\<close>). They are the fields of an environment that
  every operation of the network takes. \<open>'l\<close> is the state of one layer, \<open>'g\<close> the state of
  the random generator and \<open>'o\<close> the optimizer kind, which the network only passes on.
  The thread pool is left out: a layer operation returns after all its tasks have joined.
\<close>

record ('l, 'g, 'o) env =
  l_process :: "'l \<Rightarrow> Matrix \<Rightarrow> Matrix"
  l_processToLearn :: "'l \<Rightarrow> Matrix \<Rightarrow> double \<Rightarrow> double \<Rightarrow> 'g \<Rightarrow> Matrix \<times> 'l \<times> 'g"
  l_computeGradients :: "'l \<Rightarrow> Matrix \<Rightarrow> 'l"
  l_getGradients :: "'l \<Rightarrow> Matrix"
  l_size :: "'l \<Rightarrow> nat"
  l_init :: "'l \<Rightarrow> nat \<Rightarrow> nat \<Rightarrow> 32 word \<Rightarrow> 'l"
  l_updateWeights :: "'l \<Rightarrow> double \<Rightarrow> double \<Rightarrow> double \<Rightarrow> 'o \<Rightarrow> double \<Rightarrow> double \<Rightarrow> 'l"
  l_save :: "'l \<Rightarrow> 'l"
  l_loadSaved :: "'l \<Rightarrow> 'l"
  l_getWeights :: "'l \<Rightarrow> (Matrix \<times> Vector) list"
  softmax :: "Matrix \<Rightarrow> Matrix"
  transpose :: "Matrix \<Rightarrow> Matrix"
  averageLoss :: "Matrix \<Rightarrow> double"
  accuracy :: "Matrix \<Rightarrow> Matrix \<Rightarrow> double \<Rightarrow> double \<times> double"
  L1Cost :: "Matrix \<Rightarrow> Matrix \<Rightarrow> double \<times> double"
  L2Cost :: "Matrix \<Rightarrow> Matrix \<Rightarrow> double \<times> double"
  standardize :: "Matrix \<Rightarrow> Matrix \<times> (double \<times> double) list"
  standardizeWith :: "Matrix \<Rightarrow> (double \<times> double) list \<Rightarrow> Matrix"
  normalize :: "Matrix \<Rightarrow> Matrix \<times> (double \<times> double) list"
  normalizeWith :: "Matrix \<Rightarrow> (double \<times> double) list \<Rightarrow> Matrix"
  mt19937 :: "32 word \<Rightarrow> 'g"
  shuffle :: "Dataset \<Rightarrow> 'g \<Rightarrow> Dataset \<times> 'g"

record 'o NetworkParam =
  param_seed :: "32 word"
  param_batchSize :: "32 word"
  param_learningRate :: double
  param_L1 :: double
  param_L2 :: double
  param_epoch :: "32 word"
  param_patience :: "32 word"
  param_dropout :: double
  param_dropconnect :: double
  param_validationRatio :: double
  param_testRatio :: double
  param_loss :: Loss
  param_LRDecayConstant :: double
  param_LRStepDecay :: "32 word"
  param_decay :: "double \<Rightarrow> 32 word \<Rightarrow> double \<Rightarrow> 32 word \<Rightarrow> double"
  param_classValidity :: double
  param_optimizer :: 'o
  param_momentum :: double
  param_window :: double
  param_metric :: Cost
  param_plateau :: double
  param_normalizeOutputs :: bool

record ('l, 'g, 'o) Network =
  seed :: "32 word"
  generator :: 'g
  layers :: "'l list"
  LRDecayConstant :: double
  LRStepDecay :: "32 word"
  decay :: "double \<Rightarrow> 32 word \<Rightarrow> double \<Rightarrow> 32 word \<Rightarrow> double"
  batchSize :: "32 word"
  learningRate :: double
  L1 :: double
  L2 :: double
  dropout :: double
  dropconnect :: double
  maxEpoch :: "32 word"
  patience :: "32 word"
  loss :: Loss
  validationRatio :: double
  testRatio :: double
  rawData :: Dataset
  trainData :: Matrix
  trainRealResults :: Matrix
  validationData :: Matrix
  validationRealResults :: Matrix
  testData :: Matrix
  testRealResults :: Matrix
  nbBatch :: "32 word"
  epoch :: "32 word"
  optimalEpoch :: "32 word"
  trainLosses :: "double list"
  validLosses :: "double list"
  testMetric :: "double list"
  testSecondMetric :: "double list"
  classValidity :: double
  optimizer :: 'o
  momentum :: double
  window :: double
  metric :: Cost
  plateau :: double
  normalizeOutputs :: bool

text \<open>
  The constructor. A seed of zero in the parameters asks for a seed taken from the clock:
  \<open>clock\<close> is the tick count that \<^verbatim>\<open>steady_clock().now().time_since_epoch().count()\<close>
  returns, converted to \<^verbatim>\<open>unsigned\<close>.
\<close>

definition Network ::
  "('l, 'g, 'o) env \<Rightarrow> 'o NetworkParam \<Rightarrow> int \<Rightarrow> ('l, 'g, 'o) Network" where
  "Network E param clock =
     (let seed0 = (if param_seed param = 0 then word_of_int clock else param_seed param) in
      \<lparr> seed = seed0,
        generator = mt19937 E seed0,
        layers = [],
        LRDecayConstant = param_LRDecayConstant param,
        LRStepDecay = param_LRStepDecay param,
        decay = param_decay param,
        batchSize = param_batchSize param,
        learningRate = param_learningRate param,
        L1 = param_L1 param,
        L2 = param_L2 param,
        dropout = param_dropout param,
        dropconnect = param_dropconnect param,
        maxEpoch = param_epoch param,
        patience = param_patience param,
        loss = param_loss param,
        validationRatio = param_validationRatio param,
        testRatio = param_testRatio param,
        rawData = [],
        trainData = [],
        trainRealResults = [],
        validationData = [],
        validationRealResults = [],
        testData = [],
        testRealResults = [],
        nbBatch = 0,
        epoch = 0,
        optimalEpoch = 0,
        trainLosses = [],
        validLosses = [],
        testMetric = [],
        testSecondMetric = [],
        classValidity = param_classValidity param,
        optimizer = param_optimizer param,
        momentum = param_momentum param,
        window = param_window param,
        metric = param_metric param,
        plateau = param_plateau param,
        normalizeOutputs = param_normalizeOutputs param \<rparr>)"

definition addLayer :: "'l \<Rightarrow> ('l, 'g, 'o) Network \<Rightarrow> ('l, 'g, 'o) Network" where
  "addLayer l s = s\<lparr>layers := layers s @ [l]\<rparr>"

definition setData :: "Dataset \<Rightarrow> ('l, 'g, 'o) Network \<Rightarrow> ('l, 'g, 'o) Network" where
  "setData data s = s\<lparr>rawData := data\<rparr>"

text \<open>\<^verbatim>\<open>process\<close>: the layers in order, then softmax when the loss is \<^verbatim>\<open>Loss::CrossEntropy\<close>.\<close>

definition process :: "('l, 'g, 'o) env \<Rightarrow> ('l, 'g, 'o) Network \<Rightarrow> Matrix \<Rightarrow> Matrix" where
  "process E s inputs =
     (let inputs1 = foldl (\<lambda>inp l. l_process E l inp) inputs (layers s) in
      if loss s = CrossEntropy then softmax E inputs1 else inputs1)"


subsection \<open>Partitioning the data: \<^verbatim>\<open>shuffleData\<close>\<close>

text \<open>
  \<^verbatim>\<open>std::trunc\<close>, \<^verbatim>\<open>std::round\<close> (halves away from zero) and the conversions between
  \<^verbatim>\<open>double\<close> and \<^verbatim>\<open>unsigned\<close>. Converting a \<^verbatim>\<open>double\<close> whose truncation is not an
  \<^verbatim>\<open>unsigned\<close> value is undefined in C++: the model returns no value.
\<close>

definition trunc_real :: "real \<Rightarrow> int" where
  "trunc_real x = (if 0 \<le> x then \<lfloor>x\<rfloor> else \<lceil>x\<rceil>)"

definition round_real :: "real \<Rightarrow> int" where
  "round_real x = (if 0 \<le> x then \<lfloor>x + 1/2\<rfloor> else \<lceil>x - 1/2\<rceil>)"

fun dtrunc :: "double \<Rightarrow> double" where
  "dtrunc (Num x) = Num (of_int (trunc_real x))"
| "dtrunc d = d"

fun dround :: "double \<Rightarrow> double" where
  "dround (Num x) = Num (of_int (round_real x))"
| "dround d = d"

fun to_unsigned :: "double \<Rightarrow> 32 word option" where
  "to_unsigned (Num x) =
     (if 0 \<le> trunc_real x \<and> trunc_real x < 2 ^ 32 then Some (word_of_int (trunc_real x))
      else None)"
| "to_unsigned _ = None"

definition unsigned_cast :: "double \<Rightarrow> error + 32 word" where
  "unsigned_cast d = (case to_unsigned d of None \<Rightarrow> Inl BadCast | Some u \<Rightarrow> Inr u)"

definition of_unsigned :: "32 word \<Rightarrow> double" where
  "of_unsigned u = Num (real (unat u))"

definition of_size :: "nat \<Rightarrow> double" where
  "of_size n = Num (real n)"

text \<open>
  One of the three loops that empty \<^verbatim>\<open>_rawData\<close> from its end: \<open>k\<close> times, append the
  last example's input to one matrix and its output to another, then \<^verbatim>\<open>pop_back\<close>.
\<close>

fun moveRows :: "nat \<Rightarrow> Dataset \<Rightarrow> Matrix \<Rightarrow> Matrix \<Rightarrow> error + (Dataset \<times> Matrix \<times> Matrix)" where
  "moveRows 0 raw xs ys = Inr (raw, xs, ys)"
| "moveRows (Suc k) raw xs ys =
     (if raw = [] then Inl OutOfRange
      else moveRows k (butlast raw) (xs @ [fst (last raw)]) (ys @ [snd (last raw)]))"

text \<open>The batch count the partition aims at, before and after the 0.5 rule.\<close>

definition nbBatch_initial :: "('l, 'g, 'o) Network \<Rightarrow> nat \<Rightarrow> double" where
  "nbBatch_initial s n =
     (let validation = dmul (validationRatio s) (of_size n);
          test = dmul (testRatio s) (of_size n)
      in ddiv (dtrunc (dsub (dsub (of_size n) validation) test)) (of_unsigned (batchSize s)))"

definition shuffleData ::
  "('l, 'g, 'o) env \<Rightarrow> ('l, 'g, 'o) Network \<Rightarrow> error + ('l, 'g, 'o) Network" where
  "shuffleData E s =
     (case shuffle E (rawData s) (generator s) of (raw, g) \<Rightarrow>
      let nbBatch0 = nbBatch_initial s (length raw) in
      ebind (unsigned_cast nbBatch0) (\<lambda>u0.
      let nbBatch1 = (if dge (dsub nbBatch0 (of_unsigned u0)) (Num (1/2))
                      then dadd (dtrunc nbBatch0) (Num 1) else nbBatch0) in
      ebind (unsigned_cast nbBatch1) (\<lambda>nb.
      let nbTrain = nb * batchSize s;
          noTrain = (word_of_nat (length raw) :: 32 word) - nbTrain;
          ratios = dadd (validationRatio s) (testRatio s);
          validation = dround (ddiv (dmul (of_unsigned noTrain) (validationRatio s)) ratios);
          test = dround (ddiv (dmul (of_unsigned noTrain) (testRatio s)) ratios) in
      ebind (unsigned_cast validation) (\<lambda>nv.
      ebind (moveRows (unat nv) raw (validationData s) (validationRealResults s))
        (\<lambda>(raw1, vd, vr).
      ebind (unsigned_cast test) (\<lambda>nt.
      ebind (moveRows (unat nt) raw1 (testData s) (testRealResults s))
        (\<lambda>(raw2, td, tr).
      ebind (moveRows (unat (word_of_nat (length raw2) :: 32 word)) raw2
               (trainData s) (trainRealResults s))
        (\<lambda>(raw3, trd, trr).
      Inr (s\<lparr> generator := g, rawData := raw3,
              validationData := vd, validationRealResults := vr,
              testData := td, testRealResults := tr,
              trainData := trd, trainRealResults := trr,
              nbBatch := nb \<rparr>)))))))))"

subsection \<open>One epoch of training: \<^verbatim>\<open>performeOneEpoch\<close>\<close>

definition computeLossMatrix ::
  "('l, 'g, 'o) env \<Rightarrow> ('l, 'g, 'o) Network \<Rightarrow> Matrix \<Rightarrow> Matrix \<Rightarrow> error + (Matrix \<times> Matrix)" where
  "computeLossMatrix E s realResults predicted =
     (if loss s = Loss_L1 then L1Loss realResults predicted
      else if loss s = Loss_L2 then L2Loss realResults predicted
      else if loss s = BinaryCrossEntropy then binaryCrossEntropyLoss realResults predicted
      else crossEntropyLoss (softmax E) realResults predicted)"

text \<open>
  The rows \<^verbatim>\<open>batch*_batchSize + i\<close> for \<open>i < _batchSize\<close> of the training inputs and outputs;
  the index is computed in \<^verbatim>\<open>unsigned\<close>. A row past the end of either matrix is an error.
\<close>

definition batchIndex :: "('l, 'g, 'o) Network \<Rightarrow> 32 word \<Rightarrow> nat \<Rightarrow> nat" where
  "batchIndex s batch i = unat (batch * batchSize s + word_of_nat i)"

definition getBatch ::
  "('l, 'g, 'o) Network \<Rightarrow> 32 word \<Rightarrow> error + (Matrix \<times> Matrix)" where
  "getBatch s batch =
     (let idx = map (batchIndex s batch) [0..<unat (batchSize s)] in
      if list_all (\<lambda>k. k < length (trainData s) \<and> k < length (trainRealResults s)) idx
      then Inr (map (\<lambda>k. trainData s ! k) idx, map (\<lambda>k. trainRealResults s ! k) idx)
      else Inl OutOfRange)"

fun forwardToLearn ::
  "('l, 'g, 'o) env \<Rightarrow> double \<Rightarrow> double \<Rightarrow> 'l list \<Rightarrow> Matrix \<Rightarrow> 'g \<Rightarrow> Matrix \<times> 'l list \<times> 'g" where
  "forwardToLearn E d dc [] inp g = (inp, [], g)"
| "forwardToLearn E d dc (l # ls) inp g =
     (case l_processToLearn E l inp d dc g of (out, l', g') \<Rightarrow>
        (case forwardToLearn E d dc ls out g' of (res, ls', g'') \<Rightarrow> (res, l' # ls', g'')))"

text \<open>
  The backward pass visits the layers from the last to the first; the argument is the
  reversed list of layers, and so is the result.
\<close>

fun backwardRev :: "('l, 'g, 'o) env \<Rightarrow> 'l list \<Rightarrow> Matrix \<Rightarrow> 'l list" where
  "backwardRev E [] gradients = []"
| "backwardRev E (l # ls) gradients =
     (let l' = l_computeGradients E l gradients
      in l' # backwardRev E ls (l_getGradients E l'))"

definition trainBatch ::
  "('l, 'g, 'o) env \<Rightarrow> ('l, 'g, 'o) Network \<Rightarrow> 32 word \<Rightarrow> error + ('l, 'g, 'o) Network" where
  "trainBatch E s batch =
     ebind (getBatch s batch) (\<lambda>(input, output).
       case forwardToLearn E (dropout s) (dropconnect s) (layers s) input (generator s) of
         (predicted, ls1, g) \<Rightarrow>
       ebind (computeLossMatrix E s output predicted) (\<lambda>(lossM, gradM).
         let ls2 = rev (backwardRev E (rev ls1) (transpose E gradM));
             rate = decay s (learningRate s) (epoch s) (LRDecayConstant s) (LRStepDecay s);
             ls3 = map (\<lambda>l. l_updateWeights E l rate (L1 s) (L2 s) (optimizer s)
                                (momentum s) (window s)) ls2
         in Inr (s\<lparr>layers := ls3, generator := g\<rparr>)))"

fun trainBatches ::
  "('l, 'g, 'o) env \<Rightarrow> 32 word list \<Rightarrow> ('l, 'g, 'o) Network \<Rightarrow> error + ('l, 'g, 'o) Network" where
  "trainBatches E [] s = Inr s"
| "trainBatches E (b # bs) s =
     (case trainBatch E s b of Inl e \<Rightarrow> Inl e | Inr s' \<Rightarrow> trainBatches E bs s')"

definition performeOneEpoch ::
  "('l, 'g, 'o) env \<Rightarrow> ('l, 'g, 'o) Network \<Rightarrow> error + ('l, 'g, 'o) Network" where
  "performeOneEpoch E s = trainBatches E (map word_of_nat [0..<unat (nbBatch s)]) s"


subsection \<open>Losses of the current weights: \<^verbatim>\<open>computeLoss\<close>\<close>

definition save :: "('l, 'g, 'o) env \<Rightarrow> ('l, 'g, 'o) Network \<Rightarrow> ('l, 'g, 'o) Network" where
  "save E s = s\<lparr>layers := map (l_save E) (layers s)\<rparr>"

definition loadSaved :: "('l, 'g, 'o) env \<Rightarrow> ('l, 'g, 'o) Network \<Rightarrow> ('l, 'g, 'o) Network" where
  "loadSaved E s = s\<lparr>layers := map (l_loadSaved E) (layers s)\<rparr>"

text \<open>
  The four nested loops over layers, neurons, weight sets and weights, which add
  \<^verbatim>\<open>std::abs(w)\<close> to one accumulator and \<^verbatim>\<open>std::pow(w, 2)\<close> to another. Only the weight
  matrix of a neuron (\<^verbatim>\<open>.first\<close>) is visited, not its bias.
\<close>

definition accumulateWeights ::
  "(double \<Rightarrow> double) \<Rightarrow> (Matrix \<times> Vector) list list \<Rightarrow> double" where
  "accumulateWeights f weights =
     foldl (\<lambda>acc layer.
       foldl (\<lambda>acc neuron.
         foldl (\<lambda>acc weightSet.
           foldl (\<lambda>acc w. dadd acc (f w)) acc weightSet)
         acc (fst neuron))
       acc layer)
     (Num 0) weights"

definition regularization ::
  "('l, 'g, 'o) env \<Rightarrow> ('l, 'g, 'o) Network \<Rightarrow> double \<times> double" where
  "regularization E s =
     (let weights = map (l_getWeights E) (layers s)
      in (dmul (accumulateWeights dabs weights) (L1 s),
          dmul (accumulateWeights dpow2 weights) (dmul (L2 s) (Num (1/2)))))"

text \<open>
  The copy of the training set made before the forward pass: \<open>input[i] = _trainData[i]\<close> and
  \<open>output[i] = _trainRealResults[i]\<close> for every row of \<^verbatim>\<open>_trainData\<close>, where \<open>output\<close> has
  as many rows as \<^verbatim>\<open>_trainRealResults\<close>.
\<close>

definition trainingSet :: "('l, 'g, 'o) Network \<Rightarrow> error + (Matrix \<times> Matrix)" where
  "trainingSet s =
     (let n = length (trainData s); m = length (trainRealResults s) in
      if n \<le> m then Inr (trainData s, take n (trainRealResults s) @ replicate (m - n) [])
      else Inl OutOfRange)"

definition testMetrics :: "('l, 'g, 'o) env \<Rightarrow> ('l, 'g, 'o) Network \<Rightarrow> double \<times> double" where
  "testMetrics E s =
     (if metric s = Accuracy
      then accuracy E (testRealResults s) (process E s (testData s)) (classValidity s)
      else if metric s = Cost_L1
      then L1Cost E (testRealResults s) (process E s (testData s))
      else L2Cost E (testRealResults s) (process E s (testData s)))"

definition trainLossOf :: "('l, 'g, 'o) env \<Rightarrow> ('l, 'g, 'o) Network \<Rightarrow> error + double" where
  "trainLossOf E s =
     ebind (trainingSet s) (\<lambda>(input, output).
     ebind (computeLossMatrix E s output (process E s input)) (\<lambda>(lossM, gradM).
       case regularization E s of (l1, l2) \<Rightarrow>
         Inr (dadd (dadd (averageLoss E lossM) l1) l2)))"

definition validationLossOf :: "('l, 'g, 'o) env \<Rightarrow> ('l, 'g, 'o) Network \<Rightarrow> error + double" where
  "validationLossOf E s =
     ebind (computeLossMatrix E s (validationRealResults s) (process E s (validationData s)))
       (\<lambda>(lossM, gradM).
       case regularization E s of (l1, l2) \<Rightarrow>
         Inr (dadd (dadd (averageLoss E lossM) l1) l2))"

definition computeLoss ::
  "('l, 'g, 'o) env \<Rightarrow> ('l, 'g, 'o) Network \<Rightarrow> error + (double \<times> ('l, 'g, 'o) Network)" where
  "computeLoss E s =
     ebind (trainLossOf E s) (\<lambda>trainLoss.
     ebind (validationLossOf E s) (\<lambda>validationLoss.
       case testMetrics E s of (first, second) \<Rightarrow>
         Inr (validationLoss,
              s\<lparr> trainLosses := trainLosses s @ [trainLoss],
                  validLosses := validLosses s @ [validationLoss],
                  testMetric := testMetric s @ [first],
                  testSecondMetric := testSecondMetric s @ [second] \<rparr>)))"

subsection \<open>The training protocol: \<^verbatim>\<open>learn\<close>\<close>

definition initLayers ::
  "('l, 'g, 'o) env \<Rightarrow> ('l, 'g, 'o) Network \<Rightarrow> error + ('l, 'g, 'o) Network" where
  "initLayers E s =
     (let n = length (layers s) in
      if n = 0 then Inr s
      else if rawData s = [] then Inl OutOfRange
      else Inr (s\<lparr>layers :=
        foldl (\<lambda>ls i. ls[i := l_init E (ls ! i)
                 (if i = 0 then length (fst (rawData s ! 0)) else l_size E (ls ! (i - 1)))
                 (if i = n - 1 then length (snd (rawData s ! 0)) else l_size E (ls ! (i + 1)))
                 (batchSize s)])
          (layers s) [0..<n]\<rparr>))"

definition standardizeData ::
  "('l, 'g, 'o) env \<Rightarrow> ('l, 'g, 'o) Network \<Rightarrow> ('l, 'g, 'o) Network" where
  "standardizeData E s =
     (case standardize E (trainData s) of (td, a) \<Rightarrow>
      let s1 = s\<lparr> trainData := td,
                  validationData := standardizeWith E (validationData s) a,
                  testData := standardizeWith E (testData s) a \<rparr>
      in if normalizeOutputs s1
         then (case normalize E (trainRealResults s1) of (tr, b) \<Rightarrow>
                 s1\<lparr> trainRealResults := tr,
                     validationRealResults := normalizeWith E (validationRealResults s1) b,
                     testRealResults := normalizeWith E (testRealResults s1) b \<rparr>)
         else s1)"

text \<open>The test before training that throws when the last layer and the outputs disagree.\<close>

definition checkLastLayer ::
  "('l, 'g, 'o) env \<Rightarrow> ('l, 'g, 'o) Network \<Rightarrow> error + unit" where
  "checkLastLayer E s =
     (if layers s = [] \<or> trainRealResults s = [] then Inl OutOfRange
      else if l_size E (last (layers s)) \<noteq> length (trainRealResults s ! 0)
      then Inl LastLayerSize
      else Inr ())"

text \<open>
  The body of the epoch loop for epoch \<open>e\<close>, with the lowest validation loss so far. It ends
  in one of three ways: the \<^verbatim>\<open>return false\<close> of the divergence check, the \<^verbatim>\<open>break\<close> of early
  stopping, or the next iteration with a possibly new lowest loss.
\<close>

datatype 'a step = Diverge 'a | Break 'a | Continue double 'a

definition epochBody ::
  "('l, 'g, 'o) env \<Rightarrow> 32 word \<Rightarrow> double \<Rightarrow> ('l, 'g, 'o) Network \<Rightarrow>
     error + ('l, 'g, 'o) Network step" where
  "epochBody E e lowestLoss s =
     ebind (performeOneEpoch E (s\<lparr>epoch := e\<rparr>)) (\<lambda>s1.
     ebind (computeLoss E s1) (\<lambda>(validLoss, s2).
       if \<not> unat e < length (trainLosses s2) then Inl OutOfRange
       else if isnan (trainLosses s2 ! unat e) \<or> isnan validLoss then Inr (Diverge s2)
       else
         case (if dlt validLoss (dmul lowestLoss (plateau s2))
               then (validLoss, (save E s2)\<lparr>optimalEpoch := e\<rparr>)
               else (lowestLoss, s2)) of
           (lowestLoss', s3) \<Rightarrow>
             if e - optimalEpoch s3 > patience s3 then Inr (Break s3)
             else Inr (Continue lowestLoss' s3)))"

datatype ending = Diverged | Stopped | Exhausted

text \<open>
  The loop \<^verbatim>\<open>for(_epoch = 1; _epoch < _maxEpoch; _epoch++)\<close>. \<open>mx\<close> is the constant member
  \<^verbatim>\<open>_maxEpoch\<close>; the loop variable is the member \<^verbatim>\<open>_epoch\<close>, written back into the state.
\<close>

function epochLoop ::
  "('l, 'g, 'o) env \<Rightarrow> 32 word \<Rightarrow> 32 word \<Rightarrow> double \<Rightarrow> ('l, 'g, 'o) Network \<Rightarrow>
     error + (ending \<times> ('l, 'g, 'o) Network)" where
  "epochLoop E mx e lowestLoss s =
     (if e < mx then
        (case epochBody E e lowestLoss s of
           Inl err \<Rightarrow> Inl err
         | Inr (Diverge s') \<Rightarrow> Inr (Diverged, s')
         | Inr (Break s') \<Rightarrow> Inr (Stopped, s')
         | Inr (Continue lowestLoss' s') \<Rightarrow> epochLoop E mx (e + 1) lowestLoss' s')
      else Inr (Exhausted, s\<lparr>epoch := e\<rparr>))"
  by pat_completeness auto
termination
proof (relation "measure (\<lambda>(E, mx, e, lowestLoss, s). unat mx - unat e)")
  show "wf (measure (\<lambda>(E, mx, e, lowestLoss, s). unat mx - unat e))"
    by simp
next
  fix E :: "('l, 'g, 'o) env" and mx e :: "32 word" and lowestLoss lowestLoss' :: double
    and s s' :: "('l, 'g, 'o) Network" and x
  assume less: "e < mx"
  then have "unat e < unat mx"
    by (simp add: word_less_nat_alt)
  moreover have "unat mx < 2 ^ 32"
    using unsigned_less [of mx] by simp
  ultimately have "unat (e + 1) = Suc (unat e)"
    by (simp add: unat_word_ariths)
  moreover from less have "unat e < unat mx"
    by (simp add: word_less_nat_alt)
  ultimately show "((E, mx, e + 1, lowestLoss', s'), (E, mx, e, lowestLoss, s))
      \<in> measure (\<lambda>(E, mx, e, lowestLoss, s). unat mx - unat e)"
    by simp
qed

definition learn ::
  "('l, 'g, 'o) env \<Rightarrow> ('l, 'g, 'o) Network \<Rightarrow> error + (bool \<times> ('l, 'g, 'o) Network)" where
  "learn E s =
     ebind (initLayers E s) (\<lambda>s1.
     ebind (shuffleData E s1) (\<lambda>s2.
     let s3 = standardizeData E s2 in
     ebind (checkLastLayer E s3) (\<lambda>_.
     ebind (computeLoss E s3) (\<lambda>(lowestLoss, s4).
     ebind (epochLoop E (maxEpoch s4) 1 lowestLoss s4) (\<lambda>(how, s5).
       if how = Diverged then Inr (False, s5)
       else Inr (True, loadSaved E s5))))))"

text \<open>
  \<^verbatim>\<open>forward\<close> is the loop of \<^verbatim>\<open>process\<close> on its own: the layers' forward passes, composed in
  order.
\<close>

definition forward :: "('l, 'g, 'o) env \<Rightarrow> 'l list \<Rightarrow> Matrix \<Rightarrow> Matrix" where
  "forward E ls inputs = foldl (\<lambda>inp l. l_process E l inp) inputs ls"

text \<open>
  The default constructor of \<^verbatim>\<open>NetworkParam\<close>. \<^verbatim>\<open>LRDecay::none\<close> and \<^verbatim>\<open>Optimizer::None\<close>
  are declared in headers that are not among the sources and are parameters here.
\<close>

definition NetworkParam ::
  "(double \<Rightarrow> 32 word \<Rightarrow> double \<Rightarrow> 32 word \<Rightarrow> double) \<Rightarrow> 'o \<Rightarrow> 'o NetworkParam" where
  "NetworkParam LRDecay_none Optimizer_None =
     \<lparr> param_seed = 0,
       param_batchSize = 1,
       param_learningRate = Num (1/1000),
       param_L1 = Num 0,
       param_L2 = Num 0,
       param_epoch = 50,
       param_patience = 5,
       param_dropout = Num 0,
       param_dropconnect = Num 0,
       param_validationRatio = Num (2/10),
       param_testRatio = Num (2/10),
       param_loss = Loss_L2,
       param_LRDecayConstant = Num (1/100),
       param_LRStepDecay = 10,
       param_decay = LRDecay_none,
       param_classValidity = Num (9/10),
       param_optimizer = Optimizer_None,
       param_momentum = Num (9/10),
       param_window = Num (9/10),
       param_metric = Cost_L1,
       param_plateau = Num (999/1000),
       param_normalizeOutputs = False \<rparr>"

text \<open>
  A network as the constructor leaves it, as far as the training loop reads it: no loss has
  been recorded and the optimal epoch is zero.
\<close>

definition fresh :: "('l, 'g, 'o) Network \<Rightarrow> bool" where
  "fresh s = (trainLosses s = [] \<and> validLosses s = [] \<and> optimalEpoch s = 0)"

section \<open>The layer (Layer.hh, Layer.cpp)\<close>

text \<open>
  A layer owns its neurons. The class \<^verbatim>\<open>Neuron\<close> is not among the sources, so the operations
  of a neuron that the layer calls are the fields of an environment, with the Bernoulli
  distribution of the standard library: \<open>bernoulli p g\<close> is \<^verbatim>\<open>dist(gen)\<close> for a
  \<^verbatim>\<open>std::bernoulli_distribution\<close> of parameter \<open>p\<close> on the generator state \<open>g\<close>; it returns
  the draw and the next state. \<open>'n\<close> is the state of a neuron.
\<close>

record ('n, 'g) neuron_env =
  n_processToLearn :: "'n \<Rightarrow> Matrix \<Rightarrow> double \<Rightarrow> 'g \<Rightarrow> Vector \<times> 'n \<times> 'g"
  n_processToLearn1 :: "'n \<Rightarrow> Vector \<Rightarrow> double \<Rightarrow> 'g \<Rightarrow> double \<times> 'n \<times> 'g"
  n_init :: "'n \<Rightarrow> nat \<Rightarrow> nat \<Rightarrow> 'g \<Rightarrow> 'n \<times> 'g"
  bernoulli :: "double \<Rightarrow> 'g \<Rightarrow> bool \<times> 'g"

text \<open>\<^verbatim>\<open>std::numeric_limits<double>::epsilon()\<close>.\<close>

definition epsilon :: double where
  "epsilon = Num (1 / 2 ^ 52)"

text \<open>
  What dropout makes of one output \<open>x\<close>: zero when the draw is true, otherwise
  \<^verbatim>\<open>x /= (1 - dropout)\<close>.
\<close>

definition dropped :: "double \<Rightarrow> bool \<Rightarrow> double \<Rightarrow> double" where
  "dropped dropoutRate draw x = (if draw then Num 0 else ddiv x (dsub (Num 1) dropoutRate))"

text \<open>
  The inner loop of \<^verbatim>\<open>Layer::performProcessToLearn\<close> (Layer.hh) for neuron \<open>i\<close>: for every
  sample \<open>j\<close> of the neuron's result, store \<open>result[j]\<close> at \<open>output[j][i]\<close> and, when the
  dropout rate is above epsilon, draw from the dropout distribution and zero or rescale that
  element. The draw is inside the loop over the samples.
\<close>

fun writeResult ::
  "('n, 'g) neuron_env \<Rightarrow> double \<Rightarrow> double \<Rightarrow> nat \<Rightarrow> Vector \<Rightarrow> nat \<Rightarrow> Matrix \<Rightarrow> 'g \<Rightarrow>
     error + (Matrix \<times> 'g)" where
  "writeResult B dropoutRate dropoutDist i [] j output g = Inr (output, g)"
| "writeResult B dropoutRate dropoutDist i (r # rs) j output g =
     (if \<not> (j < length output \<and> i < length (output ! j)) then Inl OutOfRange
      else if dgt dropoutRate epsilon
      then (case bernoulli B dropoutDist g of (draw, g') \<Rightarrow>
              writeResult B dropoutRate dropoutDist i rs (Suc j)
                (output[j := (output ! j)[i := dropped dropoutRate draw r]]) g')
      else writeResult B dropoutRate dropoutDist i rs (Suc j)
             (output[j := (output ! j)[i := r]]) g)"

text \<open>
  The outer loop over the neurons \<open>indexBeg \<le> i < indexEnd\<close>. A neuron's own
  \<^verbatim>\<open>processToLearn\<close> may consume the generator (dropconnect) and updates the neuron. The layer
  hands one such range to each of its threads, which share the generator; the model runs one
  range, in index order.
\<close>

fun performProcessToLearnFrom ::
  "('n, 'g) neuron_env \<Rightarrow> Matrix \<Rightarrow> double \<Rightarrow> double \<Rightarrow> double \<Rightarrow> nat list \<Rightarrow>
     'n list \<Rightarrow> Matrix \<Rightarrow> 'g \<Rightarrow> error + ('n list \<times> Matrix \<times> 'g)" where
  "performProcessToLearnFrom B inputs dropoutRate dropconnectRate dropoutDist [] ns output g =
     Inr (ns, output, g)"
| "performProcessToLearnFrom B inputs dropoutRate dropconnectRate dropoutDist (i # is) ns output g =
     (if \<not> i < length ns then Inl OutOfRange
      else case n_processToLearn B (ns ! i) inputs dropconnectRate g of (result, n', g1) \<Rightarrow>
        ebind (writeResult B dropoutRate dropoutDist i result 0 output g1) (\<lambda>(output', g2).
          performProcessToLearnFrom B inputs dropoutRate dropconnectRate dropoutDist is
            (ns[i := n']) output' g2))"

definition performProcessToLearn ::
  "('n, 'g) neuron_env \<Rightarrow> 'n list \<Rightarrow> nat \<Rightarrow> nat \<Rightarrow> Matrix \<Rightarrow> Matrix \<Rightarrow> double \<Rightarrow> double \<Rightarrow>
     double \<Rightarrow> 'g \<Rightarrow> error + ('n list \<times> Matrix \<times> 'g)" where
  "performProcessToLearn B ns indexBeg indexEnd inputs output dropoutRate dropconnectRate dropoutDist g =
     performProcessToLearnFrom B inputs dropoutRate dropconnectRate dropoutDist [indexBeg..<indexEnd]
       ns output g"

text \<open>
  \<^verbatim>\<open>omnilearn::Layer::processToLearn\<close> (Layer.cpp) handles one sample: every neuron returns one
  value, and one draw per neuron decides whether that value is zeroed or rescaled. The tasks
  are taken in index order.
\<close>

fun processToLearn_sample ::
  "('n, 'g) neuron_env \<Rightarrow> Vector \<Rightarrow> double \<Rightarrow> double \<Rightarrow> double \<Rightarrow> 'n list \<Rightarrow> 'g \<Rightarrow>
     Vector \<times> 'n list \<times> 'g" where
  "processToLearn_sample B input dropoutRate dropconnectRate dropoutDist [] g = ([], [], g)"
| "processToLearn_sample B input dropoutRate dropconnectRate dropoutDist (n # ns) g =
     (case n_processToLearn1 B n input dropconnectRate g of (x, n', g1) \<Rightarrow>
      case (if dgt dropoutRate epsilon
            then (case bernoulli B dropoutDist g1 of
                    (draw, g2) \<Rightarrow> (dropped dropoutRate draw x, g2))
            else (x, g1)) of (y, g2) \<Rightarrow>
      case processToLearn_sample B input dropoutRate dropconnectRate dropoutDist ns g2 of
        (ys, ns', g3) \<Rightarrow> (y # ys, n' # ns', g3))"


section \<open>Notions used to state the properties\<close>

text \<open>The sum of a vector, accumulated from zero in index order.\<close>

definition dsum :: "Vector \<Rightarrow> double" where
  "dsum xs = foldl dadd (Num 0) xs"

text \<open>
  Modelled from the spec: \<^verbatim>\<open>softmax\<close>, which \<^verbatim>\<open>crossEntropyLoss\<close> and \<^verbatim>\<open>process\<close> call and
  whose source is not among the files. The specification names it without defining it; this
  is the usual row-wise normalised exponential, \<open>exp x\<^sub>j / \<Sum>\<^sub>k exp x\<^sub>k\<close> within each row.
\<close>

definition softmax_row :: "Vector \<Rightarrow> Vector" where
  "softmax_row r = map (\<lambda>x. ddiv (dexp x) (dsum (map dexp r))) r"

definition softmax_spec :: "Matrix \<Rightarrow> Matrix" where
  "softmax_spec m = map softmax_row m"






text \<open>
  The loss histories \<^verbatim>\<open>_trainLosses\<close> and \<^verbatim>\<open>_validLosses\<close> are indexed by epoch, index zero
  being the baseline computed before the loop. Epoch \<open>k\<close> diverged when one of its two
  recorded losses is NaN.
\<close>

definition nanEpoch :: "('l, 'g, 'o) Network \<Rightarrow> nat \<Rightarrow> bool" where
  "nanEpoch s k = (isnan (trainLosses s ! k) \<or> isnan (validLosses s ! k))"

text \<open>
  Early stopping as the specification words it, on a history of validation losses: starting
  from the baseline as lowest loss and epoch zero as optimum, an epoch whose loss is strictly
  below the lowest loss times the plateau becomes the new optimum and its loss the new lowest
  loss. \<open>bestEpoch\<close> returns the lowest loss and the optimal epoch at the end of the history.
\<close>

fun track :: "double \<Rightarrow> double list \<Rightarrow> nat \<Rightarrow> double \<times> nat \<Rightarrow> double \<times> nat" where
  "track p [] k best = best"
| "track p (v # vs) k best =
     track p vs (Suc k) (if dlt v (dmul (fst best) p) then (v, k) else best)"

definition bestEpoch :: "double \<Rightarrow> double list \<Rightarrow> double \<times> nat" where
  "bestEpoch p vl = (case vl of [] \<Rightarrow> (NaN, 0) | v0 # vs \<Rightarrow> track p vs 1 (v0, 0))"




text \<open>
  The generator after \<open>k\<close> draws of the dropout distribution, the \<open>k\<close>-th draw from a
  generator state, and the value \<^verbatim>\<open>performProcessToLearn\<close> stores for the \<open>k\<close>-th sample of a
  neuron whose result was computed in generator state \<open>g\<close>.
\<close>

fun afterDraws :: "('n, 'g) neuron_env \<Rightarrow> double \<Rightarrow> nat \<Rightarrow> 'g \<Rightarrow> 'g" where
  "afterDraws B pd 0 g = g"
| "afterDraws B pd (Suc k) g = afterDraws B pd k (snd (bernoulli B pd g))"

definition drawAt :: "('n, 'g) neuron_env \<Rightarrow> double \<Rightarrow> nat \<Rightarrow> 'g \<Rightarrow> bool" where
  "drawAt B pd k g = fst (bernoulli B pd (afterDraws B pd k g))"

definition written ::
  "('n, 'g) neuron_env \<Rightarrow> double \<Rightarrow> double \<Rightarrow> nat \<Rightarrow> 'g \<Rightarrow> double \<Rightarrow> double" where
  "written B d pd k g x = (if dgt d epsilon then dropped d (drawAt B pd k g) x else x)"

text \<open>
  Relations between states used in the proofs: \<open>trained\<close> holds when only the layers and the
  generator differ, \<open>recorded\<close> is a state with one more entry in each history, \<open>sameRun\<close>
  holds when the histories and the constants of early stopping agree, and \<open>loopInv\<close> is the
  invariant of the epoch loop at the head of epoch \<open>e\<close>.
\<close>

definition trained :: "('l, 'g, 'o) Network \<Rightarrow> ('l, 'g, 'o) Network \<Rightarrow> bool" where
  "trained s s' = (s' = s\<lparr>layers := layers s', generator := generator s'\<rparr>)"

definition recorded ::
  "('l, 'g, 'o) Network \<Rightarrow> double \<Rightarrow> double \<Rightarrow> double \<Rightarrow> double \<Rightarrow> ('l, 'g, 'o) Network" where
  "recorded s t v m1 m2 =
     s\<lparr> trainLosses := trainLosses s @ [t], validLosses := validLosses s @ [v],
        testMetric := testMetric s @ [m1], testSecondMetric := testSecondMetric s @ [m2] \<rparr>"

definition sameRun :: "('l, 'g, 'o) Network \<Rightarrow> ('l, 'g, 'o) Network \<Rightarrow> bool" where
  "sameRun s s' =
     (trainLosses s' = trainLosses s \<and> validLosses s' = validLosses s \<and>
      optimalEpoch s' = optimalEpoch s \<and> patience s' = patience s \<and>
      plateau s' = plateau s \<and> maxEpoch s' = maxEpoch s)"

definition loopInv :: "32 word \<Rightarrow> double \<Rightarrow> ('l, 'g, 'o) Network \<Rightarrow> bool" where
  "loopInv e lowest s =
     (1 \<le> unat e \<and> length (trainLosses s) = unat e \<and> length (validLosses s) = unat e \<and>
      (\<forall>k. 1 \<le> k \<and> k < unat e \<longrightarrow> \<not> nanEpoch s k) \<and>
      unat (optimalEpoch s) < unat e \<and>
      unat e - 1 - unat (optimalEpoch s) \<le> unat (patience s) \<and>
      bestEpoch (plateau s) (validLosses s) = (lowest, unat (optimalEpoch s)))"

section \<open>Example networks\<close>

text \<open>
  A layer with one neuron of one weight and no bias, \<open>output = weight * input\<close>. Its training
  is synthetic: every update of the weights moves the weight to the next value of a plan, so
  that a run follows a prescribed sequence of losses. \<open>kept\<close> is the checkpoint that
  \<^verbatim>\<open>save\<close> writes and \<^verbatim>\<open>loadSaved\<close> restores.
\<close>

datatype toyLayer = Toy (weight: double) (kept: double) (plan: "double list")

fun toy_process :: "toyLayer \<Rightarrow> Matrix \<Rightarrow> Matrix" where
  "toy_process l inputs = map (\<lambda>row. [foldl (\<lambda>acc x. dadd acc (dmul (weight l) x)) (Num 0) row]) inputs"

fun toy_update :: "toyLayer \<Rightarrow> toyLayer" where
  "toy_update (Toy w k []) = Toy w k []"
| "toy_update (Toy w k (w' # ws)) = Toy w' k ws"

text \<open>The mean of all elements of a loss matrix.\<close>

definition toy_averageLoss :: "Matrix \<Rightarrow> double" where
  "toy_averageLoss m = ddiv (dsum (concat m)) (of_size (length (concat m)))"

text \<open>
  The environment of the examples. The generator state is its seed, and the shuffle keeps
  the order of the data for an even state and reverses it for an odd one.
\<close>

definition toyEnv :: "(toyLayer, 32 word, unit) env" where
  "toyEnv =
     \<lparr> l_process = toy_process,
       l_processToLearn = (\<lambda>l inputs d dc g. (toy_process l inputs, l, g)),
       l_computeGradients = (\<lambda>l gradients. l),
       l_getGradients = (\<lambda>l. []),
       l_size = (\<lambda>l. 1),
       l_init = (\<lambda>l nbInputs nbOutputs bs. l),
       l_updateWeights = (\<lambda>l rate l1 l2 opt mom win. toy_update l),
       l_save = (\<lambda>l. Toy (weight l) (weight l) (plan l)),
       l_loadSaved = (\<lambda>l. Toy (kept l) (kept l) (plan l)),
       l_getWeights = (\<lambda>l. [([[weight l]], [])]),
       softmax = softmax_spec,
       transpose = List.transpose,
       averageLoss = toy_averageLoss,
       accuracy = (\<lambda>r p v. (Num 0, Num 0)),
       L1Cost = (\<lambda>r p. (Num 0, Num 0)),
       L2Cost = (\<lambda>r p. (Num 0, Num 0)),
       standardize = (\<lambda>m. (m, [])),
       standardizeWith = (\<lambda>m a. m),
       normalize = (\<lambda>m. (m, [])),
       normalizeWith = (\<lambda>m b. m),
       mt19937 = (\<lambda>seed. seed),
       shuffle = (\<lambda>d g. (if even g then d else rev d, g + 1)) \<rparr>"

definition toyParam :: "unit NetworkParam" where
  "toyParam = NetworkParam (\<lambda>rate e c st. rate) ()"

definition toyNet :: "Loss \<Rightarrow> double \<Rightarrow> double list \<Rightarrow> (toyLayer, 32 word, unit) Network" where
  "toyNet lo w ws = addLayer (Toy w w ws) (Network toyEnv (toyParam\<lparr>param_loss := lo, param_seed := 1\<rparr>) 0)"

text \<open>
  Networks with \<open>n\<close> identical examples and given batch size and ratios, and networks with
  four examples, batch size two and a quarter of the data for validation and for test, for
  given epoch cap, patience, initial weight and plan.
\<close>

definition partitionNet :: "32 word \<Rightarrow> real \<Rightarrow> real \<Rightarrow> nat \<Rightarrow> (toyLayer, 32 word, unit) Network" where
  "partitionNet bs v t n =
     setData (map (\<lambda>i. ([Num 1], [Num 0])) [0..<n])
       (addLayer (Toy (Num 1) (Num 1) [])
          (Network toyEnv (toyParam\<lparr>param_seed := 1, param_batchSize := bs,
             param_validationRatio := Num v, param_testRatio := Num t\<rparr>) 0))"

definition learnNet ::
  "32 word \<Rightarrow> 32 word \<Rightarrow> double \<Rightarrow> double list \<Rightarrow> (toyLayer, 32 word, unit) Network" where
  "learnNet mx pat w ws =
     setData [([Num 1], [Num 0]), ([Num 1], [Num 0]), ([Num 1], [Num 0]), ([Num 1], [Num 0])]
       (addLayer (Toy w w ws)
          (Network toyEnv (toyParam\<lparr>param_seed := 1, param_batchSize := 2,
             param_validationRatio := Num (1/4), param_testRatio := Num (1/4),
             param_epoch := mx, param_patience := pat, param_loss := Loss_L1\<rparr>) 0))"


definition cappedRun :: "(toyLayer, 32 word, unit) Network" where
  "cappedRun = learnNet 3 5 (Num 1) [Num 1, Num 1]"

definition plateauRun :: "(toyLayer, 32 word, unit) Network" where
  "plateauRun = learnNet 50 1 (Num 1) [Num (1/2), Num (1/2), Num (1/2)]"

definition improvingRun :: "(toyLayer, 32 word, unit) Network" where
  "improvingRun = learnNet 3 5 (Num 1) [Num (1/2), Num (1/4)]"



text \<open>
  A layer environment for examples: a neuron is the vector of outputs it produces for a
  batch, and the generator is the list of the Bernoulli draws to come.
\<close>

definition listEnv :: "(Vector, bool list) neuron_env" where
  "listEnv =
     \<lparr> n_processToLearn = (\<lambda>n inputs dc g. (n, n, g)),
       n_processToLearn1 = (\<lambda>n input dc g. (case n of [] \<Rightarrow> Num 0 | x # xs \<Rightarrow> x, n, g)),
       n_init = (\<lambda>n nbInputs nbOutputs g. (n, g)),
       bernoulli = (\<lambda>p g. (case g of [] \<Rightarrow> (False, []) | b # bs \<Rightarrow> (b, bs))) \<rparr>"

section \<open>Basic facts\<close>

lemma ebind_simps [simp]:
  "ebind (Inl e) f = Inl e" "ebind (Inr x) f = f x"
  by (simp_all add: ebind_def)

lemma unat_succ_less: "(e :: 32 word) < mx \<Longrightarrow> unat (e + 1) = Suc (unat e)"
proof -
  assume "e < mx"
  then have "unat e < unat mx"
    by (simp add: word_less_nat_alt)
  moreover have "unat mx < 2 ^ 32"
    using unsigned_less [of mx] by simp
  ultimately show ?thesis
    by (simp add: unat_word_ariths)
qed

lemma elementwise_nth:
  "i < lines real' \<Longrightarrow> j < columns real' \<Longrightarrow>
   elementwise f real' predicted ! i ! j = f (real' ! i ! j) (predicted ! i ! j)"
  by (simp add: elementwise_def lines_def)















lemma softmax_spec_0: "softmax_spec [[Num 0]] = [[Num 1]]"
  by (simp add: softmax_spec_def softmax_row_def dsum_def)

lemma moveRows_rev:
  "moveRows k (rev rs) xs ys =
     (if k \<le> length rs
      then Inr (rev (drop k rs), xs @ map fst (take k rs), ys @ map snd (take k rs))
      else Inl OutOfRange)"
proof (induction k arbitrary: rs xs ys)
  case 0
  then show ?case by simp
next
  case (Suc k)
  show ?case
  proof (cases rs)
    case Nil
    then show ?thesis by simp
  next
    case (Cons r rs')
    then show ?thesis
      using Suc [of rs' "xs @ [fst r]" "ys @ [snd r]"] by simp
  qed
qed

lemma moveRows_eq:
  "moveRows k raw xs ys =
     (if k \<le> length raw
      then Inr (take (length raw - k) raw, xs @ map fst (take k (rev raw)),
                ys @ map snd (take k (rev raw)))
      else Inl OutOfRange)"
  using moveRows_rev [of k "rev raw" xs ys] by (simp add: rev_drop)

lemma upt_0_2: "[0..<2] = [0, 1]"
  by (simp add: upt_rec)

lemma upt_0_4: "[0..<4] = [0, 1, 2, Suc 2]"
  by (simp add: upt_rec)

lemma upt_0_11: "[0..<11] = [0, 1, 2, 3, 4, 5, 6, 7, 8, 9, 10]"
  by (simp add: upt_rec)

text \<open>Unfolding rules that evaluate the example networks.\<close>

lemmas toy_defs = partitionNet_def toyEnv_def Network_def addLayer_def setData_def
  toyParam_def NetworkParam_def

lemmas shuffle_defs = shuffleData_def nbBatch_initial_def of_size_def of_unsigned_def
  unsigned_cast_def dsub_def trunc_real_def round_real_def dge_def Let_def

lemmas learn_defs = learn_def initLayers_def standardizeData_def checkLastLayer_def
  computeLoss_def trainLossOf_def validationLossOf_def trainingSet_def computeLossMatrix_def
  L1Loss_def lossPair_def covers_def lines_def columns_def elementwise_def regularization_def
  accumulateWeights_def process_def testMetrics_def toy_averageLoss_def dsum_def
  epochBody_def performeOneEpoch_def trainBatch_def getBatch_def batchIndex_def
  save_def loadSaved_def dgt_def dpow2_def

lemmas run_defs = learnNet_def toy_defs shuffle_defs moveRows_eq learn_defs upt_0_2
  epochLoop.simps

section \<open>Partitioning (claim C1)\<close>

text \<open>
  When \<^verbatim>\<open>shuffleData\<close> returns, every example has gone to exactly one of the three sets,
  provided the shuffle keeps the number of examples and the sets were empty before.
\<close>

lemma shuffleData_sizes:
  assumes "shuffleData E s = Inr s'"
    and "length (fst (shuffle E (rawData s) (generator s))) = length (rawData s)"
    and "length (rawData s) < 2 ^ 32"
    and "trainData s = []" and "validationData s = []" and "testData s = []"
  shows "length (trainData s') + length (validationData s') + length (testData s') =
     length (rawData s)"
  using assms
  by (auto simp: shuffleData_def ebind_def Let_def moveRows_eq unat_of_nat
      split: sum.splits prod.splits if_splits simp del: moveRows.simps)

text \<open>
  Claim C1 says that the three sets sum to the size of the data and that the training set is
  a whole number of batches. The code computes \<open>nbTrain = nbBatch * batchSize\<close> and rounds the
  validation and test shares of the remaining \<open>noTrain\<close> examples separately; when both shares
  end in one half, both round up and take one example from the training set. With 11
  examples, both ratios 1/4 and batches of 4 the partition is 3 + 4 + 4: the training set is
  not a multiple of 4, \<^verbatim>\<open>_nbBatch\<close> is 1, and \<^verbatim>\<open>performeOneEpoch\<close> reads the fourth row of a
  training set of three.
\<close>

theorem shuffleData_incomplete_batch:
  "(case shuffleData toyEnv (partitionNet 4 (1/4) (1/4) 11) of
      Inr s' \<Rightarrow>
        length (trainData s') = 3 \<and> length (validationData s') = 4 \<and>
        length (testData s') = 4 \<and> nbBatch s' = 1 \<and> batchSize s' = 4 \<and>
        performeOneEpoch toyEnv s' = Inl OutOfRange
    | Inl e \<Rightarrow> False)"
  apply (simp add: toy_defs shuffle_defs moveRows_eq upt_0_11 del: moveRows.simps)
  apply (simp add: performeOneEpoch_def trainBatch_def getBatch_def batchIndex_def Let_def upt_0_4)
  done

section \<open>The epoch loop\<close>

lemma trained_refl: "trained s s"
  by (simp add: trained_def)

lemma trained_trans: "trained s s1 \<Longrightarrow> trained s1 s2 \<Longrightarrow> trained s s2"
proof -
  assume a: "trained s s1" and b: "trained s1 s2"
  have "s2 = s1\<lparr>layers := layers s2, generator := generator s2\<rparr>"
    using b by (simp add: trained_def)
  also have "s1 = s\<lparr>layers := layers s1, generator := generator s1\<rparr>"
    using a by (simp add: trained_def)
  finally show ?thesis
    by (simp add: trained_def)
qed

lemma trainBatch_trained: "trainBatch E s b = Inr s' \<Longrightarrow> trained s s'"
  by (auto simp: trainBatch_def ebind_def Let_def trained_def split: sum.splits prod.splits)

lemma trainBatches_trained: "trainBatches E bs s = Inr s' \<Longrightarrow> trained s s'"
proof (induction bs arbitrary: s)
  case Nil
  then show ?case by (simp add: trained_refl)
next
  case (Cons b bs)
  from Cons.prems obtain s1 where b: "trainBatch E s b = Inr s1"
    and bs: "trainBatches E bs s1 = Inr s'"
    by (auto simp: ebind_def split: sum.splits)
  from trainBatch_trained [OF b] Cons.IH [OF bs] show ?case
    by (rule trained_trans)
qed

lemma performeOneEpoch_trained: "performeOneEpoch E s = Inr s' \<Longrightarrow> trained s s'"
  unfolding performeOneEpoch_def by (rule trainBatches_trained)

lemma computeLoss_recorded:
  "computeLoss E s = Inr (v, s') \<Longrightarrow>
   \<exists>t m1 m2. trainLossOf E s = Inr t \<and> validationLossOf E s = Inr v \<and> s' = recorded s t v m1 m2"
  by (auto simp: computeLoss_def recorded_def ebind_def split: sum.splits prod.splits)

lemma epochLoop_ends:
  "epochLoop E mx e lowest s = Inr (how, s') \<Longrightarrow> I e lowest s \<Longrightarrow>
   (\<And>e lowest s lowest' s1. e < mx \<Longrightarrow> I e lowest s \<Longrightarrow>
      epochBody E e lowest s = Inr (Continue lowest' s1) \<Longrightarrow> I (e + 1) lowest' s1) \<Longrightarrow>
   \<exists>e0 lowest0 s0. I e0 lowest0 s0 \<and>
     ((\<not> e0 < mx \<and> how = Exhausted \<and> s' = s0\<lparr>epoch := e0\<rparr>) \<or>
      (e0 < mx \<and> how = Diverged \<and> epochBody E e0 lowest0 s0 = Inr (Diverge s')) \<or>
      (e0 < mx \<and> how = Stopped \<and> epochBody E e0 lowest0 s0 = Inr (Break s')))"
proof (induction E mx e lowest s rule: epochLoop.induct)
  case (1 E mx e lowest s)
  note run = "1.prems"(1) and inv = "1.prems"(2) and step = "1.prems"(3)
  show ?case
  proof (cases "e < mx")
    case False
    with run have "how = Exhausted \<and> s' = s\<lparr>epoch := e\<rparr>"
      by (subst (asm) epochLoop.simps) auto
    with False inv show ?thesis by blast
  next
    case True
    with run obtain r where body: "epochBody E e lowest s = Inr r"
      by (subst (asm) epochLoop.simps) (auto split: sum.splits)
    show ?thesis
    proof (cases r)
      case (Diverge s2)
      with run True body have "how = Diverged \<and> s' = s2"
        by (subst (asm) epochLoop.simps) auto
      with True body Diverge inv show ?thesis by blast
    next
      case (Break s2)
      with run True body have "how = Stopped \<and> s' = s2"
        by (subst (asm) epochLoop.simps) auto
      with True body Break inv show ?thesis by blast
    next
      case (Continue lowest' s1)
      with run True body have next_run: "epochLoop E mx (e + 1) lowest' s1 = Inr (how, s')"
        by (subst (asm) epochLoop.simps) auto
      have "I (e + 1) lowest' s1"
        using step [OF True inv] body Continue by simp
      from "1.IH" [OF True body Continue next_run this step] show ?thesis .
    qed
  qed
qed

lemma track_snoc:
  "track p (vs @ [v]) k best =
     (if dlt v (dmul (fst (track p vs k best)) p) then (v, k + length vs)
      else track p vs k best)"
  by (induction vs arbitrary: k best) simp_all

lemma bestEpoch_snoc:
  "vl \<noteq> [] \<Longrightarrow>
   bestEpoch p (vl @ [v]) =
     (if dlt v (dmul (fst (bestEpoch p vl)) p) then (v, length vl) else bestEpoch p vl)"
  by (cases vl) (simp_all add: bestEpoch_def track_snoc)

lemma trained_fields:
  assumes "trained s s'"
  shows "trainLosses s' = trainLosses s" "validLosses s' = validLosses s"
    "optimalEpoch s' = optimalEpoch s" "patience s' = patience s" "plateau s' = plateau s"
    "maxEpoch s' = maxEpoch s" "epoch s' = epoch s"
  using assms unfolding trained_def
  by (metis Network.select_convs Network.surjective Network.update_convs(2,3))+

lemma recorded_fields [simp]:
  "trainLosses (recorded s t v m1 m2) = trainLosses s @ [t]"
  "validLosses (recorded s t v m1 m2) = validLosses s @ [v]"
  "optimalEpoch (recorded s t v m1 m2) = optimalEpoch s"
  "patience (recorded s t v m1 m2) = patience s"
  "plateau (recorded s t v m1 m2) = plateau s"
  "maxEpoch (recorded s t v m1 m2) = maxEpoch s"
  "epoch (recorded s t v m1 m2) = epoch s"
  "layers (recorded s t v m1 m2) = layers s"
  by (simp_all add: recorded_def)

text \<open>What one iteration of the epoch loop does, case by case.\<close>

lemma epochBody_Inr:
  assumes "epochBody E e lowest s = Inr r"
  shows "\<exists>s1 t v m1 m2.
     performeOneEpoch E (s\<lparr>epoch := e\<rparr>) = Inr s1 \<and>
     trainLossOf E s1 = Inr t \<and> validationLossOf E s1 = Inr v \<and>
     unat e < length (trainLosses s1 @ [t]) \<and>
     r = (if isnan ((trainLosses s1 @ [t]) ! unat e) \<or> isnan v
          then Diverge (recorded s1 t v m1 m2)
          else if dlt v (dmul lowest (plateau s1))
          then Continue v ((save E (recorded s1 t v m1 m2))\<lparr>optimalEpoch := e\<rparr>)
          else if e - optimalEpoch s1 > patience s1
          then Break (recorded s1 t v m1 m2)
          else Continue lowest (recorded s1 t v m1 m2))"
proof -
  from assms obtain s1 where s1: "performeOneEpoch E (s\<lparr>epoch := e\<rparr>) = Inr s1"
    by (auto simp: epochBody_def ebind_def split: sum.splits)
  with assms obtain v s2 where cl: "computeLoss E s1 = Inr (v, s2)"
    by (auto simp: epochBody_def ebind_def split: sum.splits)
  from computeLoss_recorded [OF cl] obtain t m1 m2 where
    t: "trainLossOf E s1 = Inr t" and v: "validationLossOf E s1 = Inr v"
    and s2: "s2 = recorded s1 t v m1 m2"
    by blast
  have zero: "\<not> (e - e > patience s2)"
    by simp
  from assms s1 cl have
    "r = (if \<not> unat e < length (trainLosses s2) then undefined
          else if isnan (trainLosses s2 ! unat e) \<or> isnan v then Diverge s2
          else if dlt v (dmul lowest (plateau s2))
          then Continue v ((save E s2)\<lparr>optimalEpoch := e\<rparr>)
          else if e - optimalEpoch s2 > patience s2 then Break s2
          else Continue lowest s2) \<and> unat e < length (trainLosses s2)"
    by (auto simp: epochBody_def save_def split: if_splits)
  then show ?thesis
    using s1 t v unfolding s2 by (intro exI [of _ s1] exI [of _ t] exI [of _ v] exI [of _ m1] exI [of _ m2]) simp
qed

lemma save_fields [simp]:
  "trainLosses (save E s) = trainLosses s"
  "validLosses (save E s) = validLosses s"
  "optimalEpoch (save E s) = optimalEpoch s"
  "patience (save E s) = patience s"
  "plateau (save E s) = plateau s"
  "maxEpoch (save E s) = maxEpoch s"
  "epoch (save E s) = epoch s"
  "layers (save E s) = map (l_save E) (layers s)"
  by (simp_all add: save_def)

lemma performeOneEpoch_fields:
  assumes "performeOneEpoch E (s\<lparr>epoch := e\<rparr>) = Inr s1"
  shows "trainLosses s1 = trainLosses s" "validLosses s1 = validLosses s"
    "optimalEpoch s1 = optimalEpoch s" "patience s1 = patience s" "plateau s1 = plateau s"
    "maxEpoch s1 = maxEpoch s" "epoch s1 = e"
  using trained_fields [OF performeOneEpoch_trained [OF assms]] by simp_all

lemma loop_step:
  assumes less: "e < mx" and inv: "loopInv e lowest s"
    and body: "epochBody E e lowest s = Inr (Continue lowest' s3)"
  shows "loopInv (e + 1) lowest' s3 \<and> patience s3 = patience s \<and> plateau s3 = plateau s \<and>
         maxEpoch s3 = maxEpoch s"
proof -
  from epochBody_Inr [OF body] obtain s1 t v m1 m2 where
    s1: "performeOneEpoch E (s\<lparr>epoch := e\<rparr>) = Inr s1"
    and r: "Continue lowest' s3 =
         (if isnan ((trainLosses s1 @ [t]) ! unat e) \<or> isnan v
          then Diverge (recorded s1 t v m1 m2)
          else if dlt v (dmul lowest (plateau s1))
          then Continue v ((save E (recorded s1 t v m1 m2))\<lparr>optimalEpoch := e\<rparr>)
          else if e - optimalEpoch s1 > patience s1
          then Break (recorded s1 t v m1 m2)
          else Continue lowest (recorded s1 t v m1 m2))"
    by blast
  note f = performeOneEpoch_fields(1-6) [OF s1]
  have suc: "unat (e + 1) = Suc (unat e)"
    by (rule unat_succ_less [OF less])
  from inv have len: "length (trainLosses s) = unat e" "length (validLosses s) = unat e"
    and one: "1 \<le> unat e"
    and old: "\<And>k. 1 \<le> k \<Longrightarrow> k < unat e \<Longrightarrow> \<not> nanEpoch s k"
    and opt: "unat (optimalEpoch s) < unat e"
    and pat: "unat e - 1 - unat (optimalEpoch s) \<le> unat (patience s)"
    and best: "bestEpoch (plateau s) (validLosses s) = (lowest, unat (optimalEpoch s))"
    by (simp_all add: loopInv_def)
  have nth: "(trainLosses s1 @ [t]) ! unat e = t"
    using len f(1) by (simp add: nth_append)
  note r = r [unfolded nth]
  from r have nonan: "\<not> isnan t" "\<not> isnan v"
    by (auto split: if_splits)
  have vne: "validLosses s \<noteq> []"
    using len one by auto
  have nan_new: "\<not> nanEpoch s' k"
    if "trainLosses s' = trainLosses s @ [t]" "validLosses s' = validLosses s @ [v]"
      "1 \<le> k" "k < Suc (unat e)" for s' :: "('l, 'g, 'o) Network" and k
    using that old [of k] nonan len by (cases "k < unat e") (auto simp: nanEpoch_def nth_append)
  show ?thesis
  proof (cases "dlt v (dmul lowest (plateau s1))")
    case True
    with r nonan len f have s3: "s3 = (save E (recorded s1 t v m1 m2))\<lparr>optimalEpoch := e\<rparr>"
      and l': "lowest' = v"
      by (auto split: if_splits)
    have "bestEpoch (plateau s) (validLosses s @ [v]) = (v, unat e)"
      using True best len f by (simp add: bestEpoch_snoc [OF vne])
    moreover have hist: "trainLosses s3 = trainLosses s @ [t]" "validLosses s3 = validLosses s @ [v]"
      using s3 f by simp_all
    moreover have "\<forall>k. 1 \<le> k \<and> k < Suc (unat e) \<longrightarrow> \<not> nanEpoch s3 k"
      using nan_new [OF hist] by blast
    moreover have "optimalEpoch s3 = e" "patience s3 = patience s" "plateau s3 = plateau s"
      "maxEpoch s3 = maxEpoch s"
      using s3 f by simp_all
    ultimately show ?thesis
      using l' len suc by (simp add: loopInv_def)
  next
    case False
    with r nonan len f have s3: "s3 = recorded s1 t v m1 m2" and l': "lowest' = lowest"
      and nobreak: "\<not> e - optimalEpoch s > patience s"
      by (auto split: if_splits)
    have "optimalEpoch s \<le> e"
      using opt by (simp add: word_le_nat_alt)
    then have "unat (e - optimalEpoch s) = unat e - unat (optimalEpoch s)"
      by (rule unat_sub)
    with nobreak have "unat e - unat (optimalEpoch s) \<le> unat (patience s)"
      by (simp add: word_less_nat_alt)
    moreover have "bestEpoch (plateau s) (validLosses s @ [v]) = (lowest, unat (optimalEpoch s))"
      using False best f by (simp add: bestEpoch_snoc [OF vne])
    moreover have hist: "trainLosses s3 = trainLosses s @ [t]" "validLosses s3 = validLosses s @ [v]"
      using s3 f by simp_all
    moreover have "\<forall>k. 1 \<le> k \<and> k < Suc (unat e) \<longrightarrow> \<not> nanEpoch s3 k"
      using nan_new [OF hist] by blast
    moreover have "optimalEpoch s3 = optimalEpoch s" "patience s3 = patience s"
      "plateau s3 = plateau s" "maxEpoch s3 = maxEpoch s"
      using s3 f by simp_all
    ultimately show ?thesis
      using l' len suc opt by (simp add: loopInv_def)
  qed
qed

lemma recorded_data [simp]:
  "trainData (recorded s t v m1 m2) = trainData s"
  "trainRealResults (recorded s t v m1 m2) = trainRealResults s"
  "validationData (recorded s t v m1 m2) = validationData s"
  "validationRealResults (recorded s t v m1 m2) = validationRealResults s"
  "loss (recorded s t v m1 m2) = loss s"
  "L1 (recorded s t v m1 m2) = L1 s"
  "L2 (recorded s t v m1 m2) = L2 s"
  by (simp_all add: recorded_def)

lemma process_recorded [simp]: "process E (recorded s t v m1 m2) = process E s"
  by (rule ext) (simp add: process_def)

lemma computeLossMatrix_recorded [simp]:
  "computeLossMatrix E (recorded s t v m1 m2) = computeLossMatrix E s"
  by (intro ext) (simp add: computeLossMatrix_def)

lemma regularization_recorded [simp]:
  "regularization E (recorded s t v m1 m2) = regularization E s"
  by (simp add: regularization_def)

lemma trainingSet_recorded [simp]: "trainingSet (recorded s t v m1 m2) = trainingSet s"
  by (simp add: trainingSet_def Let_def)

lemma lossOf_recorded [simp]:
  "trainLossOf E (recorded s t v m1 m2) = trainLossOf E s"
  "validationLossOf E (recorded s t v m1 m2) = validationLossOf E s"
  by (simp_all add: trainLossOf_def validationLossOf_def)

lemma initLayers_sameRun: "initLayers E s = Inr s' \<Longrightarrow> sameRun s s'"
  by (auto simp: initLayers_def sameRun_def Let_def split: if_splits)

lemma shuffleData_sameRun: "shuffleData E s = Inr s' \<Longrightarrow> sameRun s s'"
  by (auto simp: shuffleData_def ebind_def Let_def sameRun_def split: sum.splits prod.splits)

lemma standardizeData_sameRun: "sameRun s (standardizeData E s)"
  by (auto simp: standardizeData_def sameRun_def Let_def split: prod.splits)

text \<open>How the loop can end, and what holds of the state it ends in.\<close>

lemma epochLoop_outcome:
  assumes run: "epochLoop E mx e lowest s = Inr (how, s')" and inv: "loopInv e lowest s"
  shows "patience s' = patience s \<and> plateau s' = plateau s \<and> maxEpoch s' = maxEpoch s \<and>
     (\<exists>e0 lowest0 s0. loopInv e0 lowest0 s0 \<and> plateau s0 = plateau s \<and> patience s0 = patience s \<and>
        (e0 \<le> mx \<or> e0 = e) \<and>
        ((\<not> e0 < mx \<and> how = Exhausted \<and> s' = s0\<lparr>epoch := e0\<rparr>) \<or>
         (e0 < mx \<and> how = Diverged \<and> epochBody E e0 lowest0 s0 = Inr (Diverge s')) \<or>
         (e0 < mx \<and> how = Stopped \<and> epochBody E e0 lowest0 s0 = Inr (Break s'))))"
proof -
  let ?I = "\<lambda>e0 lowest0 s0. loopInv e0 lowest0 s0 \<and> patience s0 = patience s \<and>
     plateau s0 = plateau s \<and> maxEpoch s0 = maxEpoch s \<and> (e0 \<le> mx \<or> e0 = e)"
  have start: "?I e lowest s"
    using inv by simp
  have "\<exists>e0 lowest0 s0. ?I e0 lowest0 s0 \<and>
     ((\<not> e0 < mx \<and> how = Exhausted \<and> s' = s0\<lparr>epoch := e0\<rparr>) \<or>
      (e0 < mx \<and> how = Diverged \<and> epochBody E e0 lowest0 s0 = Inr (Diverge s')) \<or>
      (e0 < mx \<and> how = Stopped \<and> epochBody E e0 lowest0 s0 = Inr (Break s')))"
  proof (rule epochLoop_ends [where I = ?I, OF run start])
    fix e0 lowest0 s0 lowest' s1
    assume less: "e0 < mx" and I: "?I e0 lowest0 s0"
      and body: "epochBody E e0 lowest0 s0 = Inr (Continue lowest' s1)"
    from less have "e0 + 1 \<le> mx"
      by (simp add: inc_le)
    moreover from I have "loopInv e0 lowest0 s0"
      by simp
    from loop_step [OF less this body] I
    have "loopInv (e0 + 1) lowest' s1 \<and> patience s1 = patience s \<and> plateau s1 = plateau s \<and>
         maxEpoch s1 = maxEpoch s"
      by simp
    ultimately show "?I (e0 + 1) lowest' s1"
      by simp
  qed
  then obtain e0 lowest0 s0 where I: "?I e0 lowest0 s0"
    and ends: "(\<not> e0 < mx \<and> how = Exhausted \<and> s' = s0\<lparr>epoch := e0\<rparr>) \<or>
      (e0 < mx \<and> how = Diverged \<and> epochBody E e0 lowest0 s0 = Inr (Diverge s')) \<or>
      (e0 < mx \<and> how = Stopped \<and> epochBody E e0 lowest0 s0 = Inr (Break s'))"
    by blast
  have "patience s' = patience s0 \<and> plateau s' = plateau s0 \<and> maxEpoch s' = maxEpoch s0"
  proof -
    consider (a) "s' = s0\<lparr>epoch := e0\<rparr>" | (b) r where "epochBody E e0 lowest0 s0 = Inr r"
      "r = Diverge s' \<or> r = Break s'"
      using ends by blast
    then show ?thesis
    proof cases
      case a
      then show ?thesis by simp
    next
      case b
      from epochBody_Inr [OF b(1)] obtain s1 t v m1 m2 where
        s1: "performeOneEpoch E (s0\<lparr>epoch := e0\<rparr>) = Inr s1" and
        "r = Diverge (recorded s1 t v m1 m2) \<or> r = Break (recorded s1 t v m1 m2) \<or>
         (\<exists>l x. r = Continue l x)"
        by (auto split: if_splits)
      with b(2) have "s' = recorded s1 t v m1 m2"
        by auto
      then show ?thesis
        using performeOneEpoch_fields [OF s1] by simp
    qed
  qed
  with I ends show ?thesis
    by (intro conjI exI [of _ e0] exI [of _ lowest0] exI [of _ s0]) simp_all
qed

lemma diverged_end:
  assumes inv: "loopInv e lowest s" and body: "epochBody E e lowest s = Inr (Diverge s')"
  shows "epoch s' = e \<and> length (trainLosses s') = Suc (unat e) \<and>
     length (validLosses s') = Suc (unat e) \<and> nanEpoch s' (unat e) \<and>
     (\<forall>k. 1 \<le> k \<and> k < unat e \<longrightarrow> \<not> nanEpoch s' k) \<and>
     (\<exists>t v. trainLossOf E s' = Inr t \<and> validationLossOf E s' = Inr v \<and> (isnan t \<or> isnan v)) \<and>
     (\<exists>s1. performeOneEpoch E (s\<lparr>epoch := e\<rparr>) = Inr s1 \<and> layers s' = layers s1)"
proof -
  from epochBody_Inr [OF body] obtain s1 t v m1 m2 where
    s1: "performeOneEpoch E (s\<lparr>epoch := e\<rparr>) = Inr s1"
    and t: "trainLossOf E s1 = Inr t" and v: "validationLossOf E s1 = Inr v"
    and r: "Diverge s' =
         (if isnan ((trainLosses s1 @ [t]) ! unat e) \<or> isnan v
          then Diverge (recorded s1 t v m1 m2)
          else if dlt v (dmul lowest (plateau s1))
          then Continue v ((save E (recorded s1 t v m1 m2))\<lparr>optimalEpoch := e\<rparr>)
          else if e - optimalEpoch s1 > patience s1
          then Break (recorded s1 t v m1 m2)
          else Continue lowest (recorded s1 t v m1 m2))"
    by blast
  note f = performeOneEpoch_fields [OF s1]
  from inv have len: "length (trainLosses s) = unat e" "length (validLosses s) = unat e"
    and old: "\<And>k. 1 \<le> k \<Longrightarrow> k < unat e \<Longrightarrow> \<not> nanEpoch s k"
    by (simp_all add: loopInv_def)
  have nth: "(trainLosses s1 @ [t]) ! unat e = t"
    using len f(1) by (simp add: nth_append)
  from r [unfolded nth] have s': "s' = recorded s1 t v m1 m2" and nan: "isnan t \<or> isnan v"
    by (auto split: if_splits)
  have "nanEpoch s' (unat e)"
    using nan len f(1,2) by (simp add: s' nanEpoch_def nth_append)
  moreover have "\<not> nanEpoch s' k" if "1 \<le> k" "k < unat e" for k
    using old [OF that] that len f(1,2) by (simp add: s' nanEpoch_def nth_append)
  ultimately show ?thesis
    using s1 t v nan len f by (auto simp: s')
qed

lemma stopped_end:
  assumes inv: "loopInv e lowest s" and body: "epochBody E e lowest s = Inr (Break s')"
  shows "epoch s' = e \<and> length (trainLosses s') = Suc (unat e) \<and>
     length (validLosses s') = Suc (unat e) \<and>
     (\<forall>k. 1 \<le> k \<and> k < Suc (unat e) \<longrightarrow> \<not> nanEpoch s' k) \<and>
     optimalEpoch s' = optimalEpoch s \<and>
     unat e = unat (optimalEpoch s') + unat (patience s) + 1 \<and>
     bestEpoch (plateau s) (validLosses s') = (lowest, unat (optimalEpoch s')) \<and>
     butlast (validLosses s') = validLosses s \<and>
     \<not> dlt (last (validLosses s')) (dmul lowest (plateau s))"
proof -
  from epochBody_Inr [OF body] obtain s1 t v m1 m2 where
    s1: "performeOneEpoch E (s\<lparr>epoch := e\<rparr>) = Inr s1"
    and r: "Break s' =
         (if isnan ((trainLosses s1 @ [t]) ! unat e) \<or> isnan v
          then Diverge (recorded s1 t v m1 m2)
          else if dlt v (dmul lowest (plateau s1))
          then Continue v ((save E (recorded s1 t v m1 m2))\<lparr>optimalEpoch := e\<rparr>)
          else if e - optimalEpoch s1 > patience s1
          then Break (recorded s1 t v m1 m2)
          else Continue lowest (recorded s1 t v m1 m2))"
    by blast
  note f = performeOneEpoch_fields [OF s1]
  from inv have len: "length (trainLosses s) = unat e" "length (validLosses s) = unat e"
    and one: "1 \<le> unat e"
    and old: "\<And>k. 1 \<le> k \<Longrightarrow> k < unat e \<Longrightarrow> \<not> nanEpoch s k"
    and opt: "unat (optimalEpoch s) < unat e"
    and pat: "unat e - 1 - unat (optimalEpoch s) \<le> unat (patience s)"
    and best: "bestEpoch (plateau s) (validLosses s) = (lowest, unat (optimalEpoch s))"
    by (simp_all add: loopInv_def)
  have nth: "(trainLosses s1 @ [t]) ! unat e = t"
    using len f(1) by (simp add: nth_append)
  from r [unfolded nth] have s': "s' = recorded s1 t v m1 m2"
    and nonan: "\<not> isnan t" "\<not> isnan v"
    and noimp: "\<not> dlt v (dmul lowest (plateau s))"
    and brk: "e - optimalEpoch s > patience s"
    using f by (auto split: if_splits)
  have vne: "validLosses s \<noteq> []"
    using len one by auto
  have "\<not> nanEpoch s' k" if "1 \<le> k" "k < Suc (unat e)" for k
    using old [of k] that nonan len f(1,2)
    by (cases "k < unat e") (auto simp: s' nanEpoch_def nth_append)
  moreover have "optimalEpoch s \<le> e"
    using opt by (simp add: word_le_nat_alt)
  then have "unat (e - optimalEpoch s) = unat e - unat (optimalEpoch s)"
    by (rule unat_sub)
  with brk have "unat (patience s) < unat e - unat (optimalEpoch s)"
    by (simp add: word_less_nat_alt)
  with pat opt have "unat e = unat (optimalEpoch s) + unat (patience s) + 1"
    by arith
  moreover have "bestEpoch (plateau s) (validLosses s @ [v]) = (lowest, unat (optimalEpoch s))"
    using noimp best by (simp add: bestEpoch_snoc [OF vne])
  ultimately show ?thesis
    using len f noimp by (simp add: s')
qed

lemma loadSaved_fields [simp]:
  "trainLosses (loadSaved E s) = trainLosses s"
  "validLosses (loadSaved E s) = validLosses s"
  "optimalEpoch (loadSaved E s) = optimalEpoch s"
  "patience (loadSaved E s) = patience s"
  "plateau (loadSaved E s) = plateau s"
  "maxEpoch (loadSaved E s) = maxEpoch s"
  "epoch (loadSaved E s) = epoch s"
  "layers (loadSaved E s) = map (l_loadSaved E) (layers s)"
  by (simp_all add: loadSaved_def)

lemma nanEpoch_loadSaved [simp]: "nanEpoch (loadSaved E s) k = nanEpoch s k"
  by (simp add: nanEpoch_def)

lemma sameRun_trans: "sameRun s s1 \<Longrightarrow> sameRun s1 s2 \<Longrightarrow> sameRun s s2"
  by (simp add: sameRun_def)

lemma learn_run:
  assumes "learn E s = Inr (ok, s')"
  shows "\<exists>s3 v0 s4 how s5. sameRun s s3 \<and> computeLoss E s3 = Inr (v0, s4) \<and>
     epochLoop E (maxEpoch s4) 1 v0 s4 = Inr (how, s5) \<and>
     ok = (how \<noteq> Diverged) \<and> s' = (if how = Diverged then s5 else loadSaved E s5)"
proof -
  from assms obtain s1 where s1: "initLayers E s = Inr s1"
    by (auto simp: learn_def ebind_def split: sum.splits)
  with assms obtain s2 where s2: "shuffleData E s1 = Inr s2"
    by (auto simp: learn_def ebind_def split: sum.splits)
  let ?s3 = "standardizeData E s2"
  from assms s1 s2 obtain v0 s4 where cl: "computeLoss E ?s3 = Inr (v0, s4)"
    by (auto simp: learn_def ebind_def Let_def split: sum.splits)
  from assms s1 s2 cl obtain how s5 where
    loop: "epochLoop E (maxEpoch s4) 1 v0 s4 = Inr (how, s5)"
    by (auto simp: learn_def ebind_def Let_def split: sum.splits)
  from assms s1 s2 cl loop have "ok = (how \<noteq> Diverged)"
    "s' = (if how = Diverged then s5 else loadSaved E s5)"
    by (auto simp: learn_def ebind_def Let_def split: sum.splits if_splits)
  moreover have "sameRun s ?s3"
    using initLayers_sameRun [OF s1] shuffleData_sameRun [OF s2] standardizeData_sameRun [of s2 E]
    by (blast intro: sameRun_trans)
  ultimately show ?thesis
    using cl loop by blast
qed

lemma baseline_inv:
  assumes "fresh s" and "sameRun s s3" and "computeLoss E s3 = Inr (v0, s4)"
  shows "loopInv 1 v0 s4 \<and> patience s4 = patience s \<and> plateau s4 = plateau s \<and>
     maxEpoch s4 = maxEpoch s"
proof -
  from computeLoss_recorded [OF assms(3)] obtain t m1 m2 where "s4 = recorded s3 t v0 m1 m2"
    by blast
  then show ?thesis
    using assms(1,2) by (simp add: loopInv_def fresh_def sameRun_def bestEpoch_def)
qed

text \<open>The facts about a finished run of \<^verbatim>\<open>learn\<close> on which the claims rest.\<close>

lemma learn_outcome:
  assumes run: "learn E s = Inr (ok, s')" and fresh: "fresh s"
  shows "length (validLosses s') = length (trainLosses s') \<and>
     (\<not> ok \<longrightarrow>
        1 \<le> unat (epoch s') \<and> length (trainLosses s') = Suc (unat (epoch s')) \<and>
        nanEpoch s' (unat (epoch s')) \<and>
        (\<exists>t v. trainLossOf E s' = Inr t \<and> validationLossOf E s' = Inr v \<and>
               (isnan t \<or> isnan v)) \<and>
        (\<exists>s0 s1. performeOneEpoch E s0 = Inr s1 \<and> layers s' = layers s1)) \<and>
     (ok \<longrightarrow>
        (\<forall>k. 1 \<le> k \<and> k < length (trainLosses s') \<longrightarrow> \<not> nanEpoch s' k) \<and>
        (\<exists>s5. s' = loadSaved E s5) \<and>
        snd (bestEpoch (plateau s) (validLosses s')) = unat (optimalEpoch s') \<and>
        (epoch s' < maxEpoch s \<longrightarrow>
           length (validLosses s') = Suc (unat (epoch s')) \<and>
           unat (epoch s') = unat (optimalEpoch s') + unat (patience s) + 1 \<and>
           1 \<le> length (butlast (validLosses s')) \<and>
           \<not> dlt (last (validLosses s'))
               (dmul (fst (bestEpoch (plateau s) (butlast (validLosses s')))) (plateau s))) \<and>
        (\<not> epoch s' < maxEpoch s \<longrightarrow>
           length (validLosses s') = unat (epoch s') \<and>
           (epoch s' = maxEpoch s \<or> epoch s' = 1) \<and>
           unat (epoch s') - 1 - unat (optimalEpoch s') \<le> unat (patience s)))"
proof -
  from learn_run [OF run] obtain s3 v0 s4 how s5 where
    same: "sameRun s s3" and cl: "computeLoss E s3 = Inr (v0, s4)"
    and loop: "epochLoop E (maxEpoch s4) 1 v0 s4 = Inr (how, s5)"
    and ok: "ok = (how \<noteq> Diverged)"
    and s': "s' = (if how = Diverged then s5 else loadSaved E s5)"
    by blast
  from baseline_inv [OF fresh same cl] have inv: "loopInv 1 v0 s4"
    and c: "patience s4 = patience s" "plateau s4 = plateau s" "maxEpoch s4 = maxEpoch s"
    by simp_all
  from epochLoop_outcome [OF loop inv] c obtain e0 lowest0 s0 where
    c5: "patience s5 = patience s" "plateau s5 = plateau s" "maxEpoch s5 = maxEpoch s"
    and inv0: "loopInv e0 lowest0 s0"
    and c0: "plateau s0 = plateau s" "patience s0 = patience s"
    and e0: "e0 \<le> maxEpoch s \<or> e0 = 1"
    and ends: "(\<not> e0 < maxEpoch s \<and> how = Exhausted \<and> s5 = s0\<lparr>epoch := e0\<rparr>) \<or>
         (e0 < maxEpoch s \<and> how = Diverged \<and> epochBody E e0 lowest0 s0 = Inr (Diverge s5)) \<or>
         (e0 < maxEpoch s \<and> how = Stopped \<and> epochBody E e0 lowest0 s0 = Inr (Break s5))"
    by auto
  from inv0 have len0: "length (trainLosses s0) = unat e0" "length (validLosses s0) = unat e0"
    and one0: "1 \<le> unat e0"
    and old0: "\<forall>k. 1 \<le> k \<and> k < unat e0 \<longrightarrow> \<not> nanEpoch s0 k"
    and pat0: "unat e0 - 1 - unat (optimalEpoch s0) \<le> unat (patience s0)"
    and best0: "bestEpoch (plateau s0) (validLosses s0) = (lowest0, unat (optimalEpoch s0))"
    by (simp_all add: loopInv_def)
  from ends consider
      (exhausted) "\<not> e0 < maxEpoch s" "how = Exhausted" "s5 = s0\<lparr>epoch := e0\<rparr>"
    | (diverged) "e0 < maxEpoch s" "how = Diverged" "epochBody E e0 lowest0 s0 = Inr (Diverge s5)"
    | (stopped) "e0 < maxEpoch s" "how = Stopped" "epochBody E e0 lowest0 s0 = Inr (Break s5)"
    by blast
  then show ?thesis
  proof cases
    case exhausted
    have "nanEpoch s5 k = nanEpoch s0 k" for k
      by (simp add: exhausted(3) nanEpoch_def)
    moreover have "e0 = maxEpoch s \<or> e0 = 1"
      using e0 exhausted(1) by auto
    ultimately show ?thesis
      using exhausted ok s' len0 old0 pat0 best0 c0 by auto
  next
    case diverged
    from diverged_end [OF inv0 diverged(3)] show ?thesis
      using diverged(1,2) ok s' one0 by auto
  next
    case stopped
    from stopped_end [OF inv0 stopped(3)] show ?thesis
      using stopped(1,2) ok s' one0 c0 len0 best0 by auto
  qed
qed

lemma all_improving_best:
  "vl \<noteq> [] \<Longrightarrow>
   (\<forall>k. 1 \<le> k \<and> k < length vl \<longrightarrow> dlt (vl ! k) (dmul (vl ! (k - 1)) p)) \<Longrightarrow>
   bestEpoch p vl = (last vl, length vl - 1)"
proof (induction vl rule: rev_induct)
  case Nil
  then show ?case by simp
next
  case (snoc v vs)
  show ?case
  proof (cases "vs = []")
    case True
    then show ?thesis by (simp add: bestEpoch_def)
  next
    case False
    have prev: "dlt (vs ! k) (dmul (vs ! (k - 1)) p)" if "1 \<le> k" "k < length vs" for k
      using snoc.prems(2) [rule_format, of k] that
      by (simp add: nth_append less_imp_diff_less)
    then have "bestEpoch p vs = (last vs, length vs - 1)"
      using snoc.IH [OF False] by blast
    moreover have "1 \<le> length vs"
      using False by (cases vs) simp_all
    then have "dlt v (dmul (vs ! (length vs - 1)) p)"
      using snoc.prems(2) [rule_format, of "length vs"]
      by (auto simp: nth_append split: if_splits)
    ultimately show ?thesis
      using False by (simp add: bestEpoch_snoc last_conv_nth)
  qed
qed

lemma epochBody_save:
  assumes "epochBody E e lowest s0 = Inr r"
  shows "\<exists>s1 v s2. performeOneEpoch E (s0\<lparr>epoch := e\<rparr>) = Inr s1 \<and>
       computeLoss E s1 = Inr (v, s2) \<and>
       (r = Diverge s2 \<or>
        (dlt v (dmul lowest (plateau s2)) \<and> r = Continue v ((save E s2)\<lparr>optimalEpoch := e\<rparr>)) \<or>
        (\<not> dlt v (dmul lowest (plateau s2)) \<and> (r = Break s2 \<or> r = Continue lowest s2)))"
proof -
  from assms obtain s1 where s1: "performeOneEpoch E (s0\<lparr>epoch := e\<rparr>) = Inr s1"
    by (auto simp: epochBody_def ebind_def split: sum.splits)
  with assms obtain v s2 where cl: "computeLoss E s1 = Inr (v, s2)"
    by (auto simp: epochBody_def ebind_def split: sum.splits)
  from assms s1 cl show ?thesis
    by (auto simp: epochBody_def split: if_splits)
qed

text \<open>The example runs, evaluated.\<close>

lemma fresh_learnNet: "fresh (learnNet mx pat w ws)"
  by (simp add: fresh_def learnNet_def toy_defs)


lemma cappedRun_result:
  "\<exists>s'. learn toyEnv cappedRun = Inr (True, s') \<and> epoch s' = 3 \<and> optimalEpoch s' = 0 \<and>
     patience s' = 5 \<and> maxEpoch s' = 3 \<and> validLosses s' = [Num 1, Num 1, Num 1]"
  by (simp add: cappedRun_def run_defs del: moveRows.simps)

lemma plateauRun_result:
  "\<exists>s'. learn toyEnv plateauRun = Inr (True, s') \<and> epoch s' = 3 \<and> optimalEpoch s' = 1 \<and>
     validLosses s' = [Num 1, Num (1/2), Num (1/2), Num (1/2)] \<and>
     layers s' = [Toy (Num (1/2)) (Num (1/2)) []]"
  by (simp add: plateauRun_def run_defs del: moveRows.simps)

lemma improvingRun_result:
  "\<exists>s'. learn toyEnv improvingRun = Inr (True, s') \<and> epoch s' = 3 \<and> optimalEpoch s' = 2 \<and>
     validLosses s' = [Num 1, Num (1/2), Num (1/4)]"
  by (simp add: improvingRun_def run_defs del: moveRows.simps)

section \<open>Early stopping (claim C2)\<close>

text \<open>
  Claim C2, amended. In a run of \<^verbatim>\<open>learn\<close> on a freshly constructed network that returns
  true: (1) an iteration of the epoch loop that passes the divergence check calls \<^verbatim>\<open>save\<close>,
  takes the validation loss as the new lowest loss and records the epoch as optimal when the
  validation loss is strictly below \<open>lowestLoss * plateau\<close>, and leaves the state as
  \<^verbatim>\<open>computeLoss\<close> returned it otherwise; (2) the optimal epoch at the end is the one that this
  rule selects on the recorded validation losses; (3) if every epoch's validation loss is
  strictly below the previous one times the plateau, the loop does not stop before
  \<open>maxEpoch\<close>; (4) if the loop stops before \<open>maxEpoch\<close>, it stops at epoch
  \<open>optimalEpoch + patience + 1\<close>; (5) otherwise it ends at \<open>maxEpoch\<close> (at 1 when \<open>maxEpoch\<close>
  is 0 or 1), and the last epoch run is at most \<open>patience\<close> epochs after the optimum.
\<close>

theorem early_stopping:
  "fresh s \<Longrightarrow> learn E s = Inr (True, s') \<Longrightarrow>
     (epochBody E e lowest s0 = Inr r \<longrightarrow>
        (\<exists>s1 v s2. performeOneEpoch E (s0\<lparr>epoch := e\<rparr>) = Inr s1 \<and>
           computeLoss E s1 = Inr (v, s2) \<and>
           (r = Diverge s2 \<or>
            (dlt v (dmul lowest (plateau s2)) \<and>
               r = Continue v ((save E s2)\<lparr>optimalEpoch := e\<rparr>)) \<or>
            (\<not> dlt v (dmul lowest (plateau s2)) \<and> (r = Break s2 \<or> r = Continue lowest s2))))) \<and>
     snd (bestEpoch (plateau s) (validLosses s')) = unat (optimalEpoch s') \<and>
     ((\<forall>k. 1 \<le> k \<and> k < length (validLosses s') \<longrightarrow>
          dlt (validLosses s' ! k) (dmul (validLosses s' ! (k - 1)) (plateau s))) \<longrightarrow>
        \<not> epoch s' < maxEpoch s) \<and>
     (epoch s' < maxEpoch s \<longrightarrow>
        length (validLosses s') = Suc (unat (epoch s')) \<and>
        unat (epoch s') = unat (optimalEpoch s') + unat (patience s) + 1) \<and>
     (\<not> epoch s' < maxEpoch s \<longrightarrow>
        length (validLosses s') = unat (epoch s') \<and>
        (epoch s' = maxEpoch s \<or> epoch s' = 1) \<and>
        unat (epoch s') - 1 - unat (optimalEpoch s') \<le> unat (patience s))"
proof -
  assume f: "fresh s" and run: "learn E s = Inr (True, s')"
  note out = learn_outcome [OF run f]
  from out have best: "snd (bestEpoch (plateau s) (validLosses s')) = unat (optimalEpoch s')"
    by blast
  from out have early: "length (validLosses s') = Suc (unat (epoch s')) \<and>
           unat (epoch s') = unat (optimalEpoch s') + unat (patience s) + 1 \<and>
           1 \<le> length (butlast (validLosses s')) \<and>
           \<not> dlt (last (validLosses s'))
               (dmul (fst (bestEpoch (plateau s) (butlast (validLosses s')))) (plateau s))"
    if "epoch s' < maxEpoch s"
    using that by blast
  from out have late: "length (validLosses s') = unat (epoch s') \<and>
           (epoch s' = maxEpoch s \<or> epoch s' = 1) \<and>
           unat (epoch s') - 1 - unat (optimalEpoch s') \<le> unat (patience s)"
    if "\<not> epoch s' < maxEpoch s"
    using that by blast
  have improving: "\<not> epoch s' < maxEpoch s"
    if all: "\<forall>k. 1 \<le> k \<and> k < length (validLosses s') \<longrightarrow>
          dlt (validLosses s' ! k) (dmul (validLosses s' ! (k - 1)) (plateau s))"
  proof
    assume "epoch s' < maxEpoch s"
    let ?vl = "validLosses s'" and ?p = "plateau s"
    from early [OF \<open>epoch s' < maxEpoch s\<close>] have len: "length ?vl = Suc (unat (epoch s'))"
      and ne: "1 \<le> length (butlast ?vl)"
      and no: "\<not> dlt (last ?vl) (dmul (fst (bestEpoch ?p (butlast ?vl))) ?p)"
      by simp_all
    have "dlt (butlast ?vl ! k) (dmul (butlast ?vl ! (k - 1)) ?p)"
      if "1 \<le> k" "k < length (butlast ?vl)" for k
      using all [rule_format, of k] that by (simp add: nth_butlast)
    moreover from ne have "butlast ?vl \<noteq> []"
      by (auto simp del: length_butlast)
    ultimately have "bestEpoch ?p (butlast ?vl) = (last (butlast ?vl), length (butlast ?vl) - 1)"
      by (intro all_improving_best) auto
    moreover have "dlt (?vl ! (length ?vl - 1)) (dmul (?vl ! (length ?vl - 1 - 1)) ?p)"
      using all [rule_format, of "length ?vl - 1"] ne by simp
    moreover from len have "?vl \<noteq> []"
      by auto
    then have "?vl ! (length ?vl - 1) = last ?vl"
      by (simp add: last_conv_nth)
    moreover from ne have "butlast ?vl \<noteq> []"
      by (auto simp del: length_butlast)
    then have "?vl ! (length ?vl - 1 - 1) = last (butlast ?vl)"
      using ne by (simp add: last_conv_nth nth_butlast)
    ultimately show False
      using no by simp
  qed
  show ?thesis
    using best early late improving epochBody_save [of E e lowest s0 r]
    by (intro conjI impI) blast+
qed

text \<open>
  The claim as stated fails where the epoch cap comes first. With \<open>maxEpoch = 3\<close>,
  \<open>patience = 5\<close> and a validation loss that never improves on the baseline, the loop runs
  epochs 1 and 2 and ends with \<open>_epoch = 3\<close> and \<open>_optimalEpoch = 0\<close>, not at epoch
  \<open>0 + 5 + 1\<close>.
\<close>

theorem early_stopping_counterexample:
  "(case learn toyEnv cappedRun of
      Inr (ok, s') \<Rightarrow> ok \<and> validLosses s' = [Num 1, Num 1, Num 1] \<and>
        epoch s' = 3 \<and> optimalEpoch s' = 0 \<and> patience s' = 5 \<and>
        unat (epoch s') \<noteq> unat (optimalEpoch s') + unat (patience s') + 1
    | Inl e \<Rightarrow> False)"
proof -
  from cappedRun_result obtain s' where "learn toyEnv cappedRun = Inr (True, s')"
    "epoch s' = 3" "optimalEpoch s' = 0" "patience s' = 5"
    "validLosses s' = [Num 1, Num 1, Num 1]"
    by blast
  then show ?thesis by simp
qed

text \<open>
  Two runs under the theorem: one whose loss stops improving after epoch 1 and which, with a
  patience of 1, stops at epoch 3; and one that improves at both of its epochs and ends at
  \<open>maxEpoch\<close>.
\<close>

theorem early_stopping_witness:
  "(case learn toyEnv plateauRun of
      Inr (ok, s') \<Rightarrow> ok \<and> epoch s' < maxEpoch plateauRun \<and> optimalEpoch s' = 1 \<and>
        unat (epoch s') = unat (optimalEpoch s') + unat (patience plateauRun) + 1
    | Inl e \<Rightarrow> False) \<and>
   (case learn toyEnv improvingRun of
      Inr (ok, s') \<Rightarrow> ok \<and> epoch s' = maxEpoch improvingRun \<and>
        snd (bestEpoch (plateau improvingRun) (validLosses s')) = 2
    | Inl e \<Rightarrow> False)"
proof -
  from plateauRun_result obtain s1 where
    run1: "learn toyEnv plateauRun = Inr (True, s1)" and e1: "epoch s1 = 3" "optimalEpoch s1 = 1"
    by blast
  from improvingRun_result obtain s2 where
    run2: "learn toyEnv improvingRun = Inr (True, s2)" and e2: "epoch s2 = 3" "optimalEpoch s2 = 2"
    by blast
  have f: "fresh plateauRun" "fresh improvingRun"
    by (simp_all add: plateauRun_def improvingRun_def fresh_learnNet)
  have mx: "maxEpoch plateauRun = 50" "maxEpoch improvingRun = 3"
    by (simp_all add: plateauRun_def improvingRun_def learnNet_def toy_defs)
  have lt: "epoch s1 < maxEpoch plateauRun"
    by (simp add: e1 mx)
  from early_stopping [OF f(1) run1, of 0 NaN plateauRun "Diverge plateauRun"]
  have "epoch s1 < maxEpoch plateauRun \<longrightarrow>
      unat (epoch s1) = unat (optimalEpoch s1) + unat (patience plateauRun) + 1"
    by blast
  with lt have a: "unat (epoch s1) = unat (optimalEpoch s1) + unat (patience plateauRun) + 1"
    by blast
  from early_stopping [OF f(2) run2, of 0 NaN improvingRun "Diverge improvingRun"]
  have "snd (bestEpoch (plateau improvingRun) (validLosses s2)) = unat (optimalEpoch s2)"
    by blast
  then have b: "snd (bestEpoch (plateau improvingRun) (validLosses s2)) = 2"
    by (simp add: e2)
  show ?thesis
    unfolding run1 run2 using lt a b e1(2) e2(1) mx(2) by simp
qed

section \<open>Divergence (claims C3 and C9)\<close>





section \<open>Dropout (claim C4)\<close>

lemma drawAt_Suc: "drawAt B pd (Suc k) g = drawAt B pd k (snd (bernoulli B pd g))"
  by (simp add: drawAt_def)

lemma written_Suc:
  "dgt d epsilon \<Longrightarrow> written B d pd (Suc k) g x = written B d pd k (snd (bernoulli B pd g)) x"
  "\<not> dgt d epsilon \<Longrightarrow> written B d pd k g x = x"
  by (simp_all add: written_def drawAt_Suc)

lemma writeResult_result:
  assumes "writeResult B d pd i rs j out g = Inr (out', g')"
  shows "length out' = length out \<and>
     (\<forall>r. length (out' ! r) = length (out ! r)) \<and>
     (\<forall>r c. r < j \<or> c \<noteq> i \<or> j + length rs \<le> r \<longrightarrow> out' ! r ! c = out ! r ! c) \<and>
     (\<forall>k. k < length rs \<longrightarrow> out' ! (j + k) ! i = written B d pd k g (rs ! k)) \<and>
     g' = (if dgt d epsilon then afterDraws B pd (length rs) g else g)"
  using assms
proof (induction rs arbitrary: j out g)
  case Nil
  then show ?case by simp
next
  case (Cons r rs)
  define g1 where "g1 = (if dgt d epsilon then snd (bernoulli B pd g) else g)"
  define x where "x = written B d pd 0 g r"
  let ?out1 = "out[j := (out ! j)[i := x]]"
  from Cons.prems have ok: "j < length out" "i < length (out ! j)"
    and rest: "writeResult B d pd i rs (Suc j) ?out1 g1 = Inr (out', g')"
    by (auto simp: g1_def x_def written_def drawAt_def split: if_splits prod.splits)
  note IH = Cons.IH [OF rest]
  have len: "length out' = length out" and rows: "\<And>r. length (out' ! r) = length (out ! r)"
    using IH ok by (simp_all add: nth_list_update)
  have frame: "out' ! r' ! c = out ! r' ! c"
    if "r' < j \<or> c \<noteq> i \<or> j + length (r # rs) \<le> r'" for r' c
  proof -
    from that have "r' < Suc j \<or> c \<noteq> i \<or> Suc j + length rs \<le> r'"
      by auto
    moreover have "r' < j \<or> c \<noteq> i \<or> r' \<noteq> j"
      using that by auto
    ultimately have "out' ! r' ! c = ?out1 ! r' ! c" "?out1 ! r' ! c = out ! r' ! c"
      using IH ok by (auto simp: nth_list_update)
    then show ?thesis by simp
  qed
  have vals: "out' ! (j + k) ! i = written B d pd k g ((r # rs) ! k)"
    if "k < length (r # rs)" for k
  proof (cases k)
    case 0
    have "out' ! j ! i = ?out1 ! j ! i"
      using IH by simp
    then show ?thesis
      using 0 ok by (simp add: x_def)
  next
    case (Suc k')
    with that have "k' < length rs" by simp
    with IH have "out' ! (Suc j + k') ! i = written B d pd k' g1 (rs ! k')"
      by blast
    then show ?thesis
      using Suc by (cases "dgt d epsilon") (simp_all add: g1_def written_Suc)
  qed
  have "g' = (if dgt d epsilon then afterDraws B pd (length (r # rs)) g else g)"
    using IH by (simp add: g1_def)
  with len rows frame vals show ?case
    by blast
qed

lemma performFrom_frame:
  assumes "performProcessToLearnFrom B inputs d dc pd js ns out g = Inr (ns', out', g')"
    and "i \<notin> set js"
  shows "(\<forall>r. out' ! r ! i = out ! r ! i) \<and> ns' ! i = ns ! i"
  using assms
proof (induction js arbitrary: ns out g)
  case Nil
  then show ?case by simp
next
  case (Cons j js)
  obtain result n1 g1 where n: "n_processToLearn B (ns ! j) inputs dc g = (result, n1, g1)"
    by (cases "n_processToLearn B (ns ! j) inputs dc g")
  with Cons.prems(1) obtain out1 g2 where
    w: "writeResult B d pd j result 0 out g1 = Inr (out1, g2)"
    and rest: "performProcessToLearnFrom B inputs d dc pd js (ns[j := n1]) out1 g2 =
        Inr (ns', out', g')"
    by (auto simp: ebind_def split: if_splits sum.splits)
  from Cons.prems(2) have ij: "i \<noteq> j" "i \<notin> set js"
    by auto
  from Cons.IH [OF rest ij(2)] writeResult_result [OF w] ij(1) show ?case
    by simp
qed

lemma performFrom_column:
  assumes "performProcessToLearnFrom B inputs d dc pd js ns out g = Inr (ns', out', g')"
    and "distinct js" and "i \<in> set js"
  shows "\<exists>g0 result n1 g1. n_processToLearn B (ns ! i) inputs dc g0 = (result, n1, g1) \<and>
     (\<forall>j. j < length result \<longrightarrow> out' ! j ! i = written B d pd j g1 (result ! j))"
  using assms
proof (induction js arbitrary: ns out g)
  case Nil
  then show ?case by simp
next
  case (Cons j js)
  obtain result n1 g1 where n: "n_processToLearn B (ns ! j) inputs dc g = (result, n1, g1)"
    by (cases "n_processToLearn B (ns ! j) inputs dc g")
  with Cons.prems(1) obtain out1 g2 where
    w: "writeResult B d pd j result 0 out g1 = Inr (out1, g2)"
    and rest: "performProcessToLearnFrom B inputs d dc pd js (ns[j := n1]) out1 g2 =
        Inr (ns', out', g')"
    and jn: "j < length ns"
    by (auto simp: ebind_def split: if_splits sum.splits)
  show ?case
  proof (cases "i = j")
    case True
    with Cons.prems(2) have "i \<notin> set js"
      by simp
    from performFrom_frame [OF rest this] writeResult_result [OF w] True
    have "\<forall>k. k < length result \<longrightarrow> out' ! k ! i = written B d pd k g1 (result ! k)"
      by simp
    with n True show ?thesis
      by blast
  next
    case False
    with Cons.prems have "distinct js" "i \<in> set js"
      by auto
    from Cons.IH [OF rest this] False show ?thesis
      by simp
  qed
qed

lemma processToLearn_sample_element:
  assumes "processToLearn_sample B input d dc pd ns g = (ys, ns', g')" and "i < length ns"
  shows "length ys = length ns \<and>
     (\<exists>g0 x n1 g1. n_processToLearn1 B (ns ! i) input dc g0 = (x, n1, g1) \<and>
        ys ! i = written B d pd 0 g1 x)"
  using assms
proof (induction ns arbitrary: g ys ns' g' i)
  case Nil
  then show ?case by simp
next
  case (Cons n ns)
  obtain x n1 g1 where n: "n_processToLearn1 B n input dc g = (x, n1, g1)"
    by (cases "n_processToLearn1 B n input dc g")
  define y where "y = written B d pd 0 g1 x"
  define g2 where "g2 = (if dgt d epsilon then snd (bernoulli B pd g1) else g1)"
  obtain ys1 ns1 g3 where rest: "processToLearn_sample B input d dc pd ns g2 = (ys1, ns1, g3)"
    by (cases "processToLearn_sample B input d dc pd ns g2")
  from Cons.prems(1) n rest have ys: "ys = y # ys1"
    by (auto simp: y_def g2_def written_def drawAt_def split: if_splits prod.splits)
  show ?case
  proof (cases i)
    case 0
    have "length ys1 = length ns"
    proof (cases ns)
      case Nil
      with rest show ?thesis by simp
    next
      case (Cons a list)
      then have "0 < length ns" by simp
      from Cons.IH [OF rest this] show ?thesis by simp
    qed
    with 0 n ys show ?thesis
      by (auto simp: y_def)
  next
    case (Suc k)
    with Cons.prems(2) have "k < length ns" by simp
    from Cons.IH [OF rest this] Suc ys show ?thesis
      by simp
  qed
qed

text \<open>
  Claim C4, amended. Under an active dropout rate, \<^verbatim>\<open>performProcessToLearn\<close> (Layer.hh) makes
  one Bernoulli draw for every element of a neuron's output, that is for every pair of a
  neuron and a sample of the batch, in sample order: the element is zero when its own draw is
  true and is the neuron's result divided by \<open>1 - dropout\<close> otherwise. When the rate is not
  above epsilon the output is the neuron's result. \<^verbatim>\<open>Layer::processToLearn\<close> of Layer.cpp,
  which handles one sample, likewise makes one draw per neuron and per call.
\<close>

theorem dropout_one_draw_per_element:
  "(performProcessToLearn B ns indexBeg indexEnd inputs out d dc pd g = Inr (ns', out', g') \<and>
    indexBeg \<le> i \<and> i < indexEnd \<longrightarrow>
      (\<exists>g0 result n1 g1. n_processToLearn B (ns ! i) inputs dc g0 = (result, n1, g1) \<and>
         (\<forall>j. j < length result \<longrightarrow>
            out' ! j ! i =
              (if dgt d epsilon
               then (if drawAt B pd j g1 then Num 0 else ddiv (result ! j) (dsub (Num 1) d))
               else result ! j)))) \<and>
   (processToLearn_sample B input d dc pd ns g = (ys, ms', h') \<and> i < length ns \<longrightarrow>
      length ys = length ns \<and>
      (\<exists>g0 x n1 g1. n_processToLearn1 B (ns ! i) input dc g0 = (x, n1, g1) \<and>
         ys ! i =
           (if dgt d epsilon
            then (if fst (bernoulli B pd g1) then Num 0 else ddiv x (dsub (Num 1) d))
            else x)))"
proof (intro conjI impI)
  assume a: "performProcessToLearn B ns indexBeg indexEnd inputs out d dc pd g =
      Inr (ns', out', g') \<and> indexBeg \<le> i \<and> i < indexEnd"
  then have "performProcessToLearnFrom B inputs d dc pd [indexBeg..<indexEnd] ns out g =
      Inr (ns', out', g')" and "distinct [indexBeg..<indexEnd]" and "i \<in> set [indexBeg..<indexEnd]"
    by (simp_all add: performProcessToLearn_def)
  from performFrom_column [OF this]
  show "\<exists>g0 result n1 g1. n_processToLearn B (ns ! i) inputs dc g0 = (result, n1, g1) \<and>
         (\<forall>j. j < length result \<longrightarrow>
            out' ! j ! i =
              (if dgt d epsilon
               then (if drawAt B pd j g1 then Num 0 else ddiv (result ! j) (dsub (Num 1) d))
               else result ! j))"
    unfolding written_def dropped_def .
next
  assume a: "processToLearn_sample B input d dc pd ns g = (ys, ms', h') \<and> i < length ns"
  then show "length ys = length ns"
    using processToLearn_sample_element [of B input d dc pd ns g ys ms' h' i] by simp
next
  assume a: "processToLearn_sample B input d dc pd ns g = (ys, ms', h') \<and> i < length ns"
  then show "\<exists>g0 x n1 g1. n_processToLearn1 B (ns ! i) input dc g0 = (x, n1, g1) \<and>
         ys ! i =
           (if dgt d epsilon
            then (if fst (bernoulli B pd g1) then Num 0 else ddiv x (dsub (Num 1) d))
            else x)"
    using processToLearn_sample_element [of B input d dc pd ns g ys ms' h' i]
    unfolding written_def dropped_def drawAt_def afterDraws.simps by simp
qed

lemma dgt_half_epsilon: "dgt (Num (1/2)) epsilon"
  by (simp add: dgt_def epsilon_def)

lemma mixedColumn:
  "performProcessToLearn listEnv [[Num 1, Num 1]] 0 1 [[Num 5], [Num 7]] [[Num 0], [Num 0]]
       (Num (1/2)) (Num 0) (Num (1/2)) [True, False] =
     Inr ([[Num 1, Num 1]], [[Num 0], [Num 2]], [])"
  unfolding performProcessToLearn_def
  by (simp add: upt_rec listEnv_def dgt_half_epsilon dropped_def dsub_def)

text \<open>
  The claim as stated, one draw per neuron for the whole batch, fails: with a dropout rate
  of 1/2, a neuron whose result is 1 for both samples of a batch and the draws true and
  false, the first sample is zeroed and the second is kept, doubled.
\<close>

theorem dropout_whole_neuron_counterexample:
  "performProcessToLearn listEnv [[Num 1, Num 1]] 0 1 [[Num 5], [Num 7]] [[Num 0], [Num 0]]
       (Num (1/2)) (Num 0) (Num (1/2)) [True, False] =
     Inr ([[Num 1, Num 1]], [[Num 0], [Num 2]], []) \<and>
   n_processToLearn listEnv [Num 1, Num 1] [[Num 5], [Num 7]] (Num 0) [True, False] =
     ([Num 1, Num 1], [Num 1, Num 1], [True, False]) \<and>
   \<not> (map (\<lambda>row. row ! 0) [[Num 0], [Num 2]] = map (\<lambda>x. Num 0) [Num 1, Num 1] \<or>
      map (\<lambda>row. row ! 0) [[Num 0], [Num 2]] =
        map (\<lambda>x. ddiv x (dsub (Num 1) (Num (1/2)))) [Num 1, Num 1])"
  using mixedColumn by (simp add: listEnv_def dsub_def)

theorem dropout_one_draw_per_element_witness:
  "(\<exists>g0 result n1 g1.
      n_processToLearn listEnv ([[Num 1, Num 1]] ! 0) [[Num 5], [Num 7]] (Num 0) g0 =
        (result, n1, g1) \<and>
      (\<forall>j. j < length result \<longrightarrow>
         [[Num 0], [Num 2]] ! j ! 0 =
           (if drawAt listEnv (Num (1/2)) j g1 then Num 0
            else ddiv (result ! j) (dsub (Num 1) (Num (1/2)))))) \<and>
   (\<exists>g0 x n1 g1. n_processToLearn1 listEnv ([[Num 1]] ! 0) [Num 5] (Num 0) g0 = (x, n1, g1) \<and>
      [Num 2] ! 0 =
        (if fst (bernoulli listEnv (Num (1/2)) g1) then Num 0
         else ddiv x (dsub (Num 1) (Num (1/2)))))"
proof -
  have s: "processToLearn_sample listEnv [Num 5] (Num (1/2)) (Num 0) (Num (1/2)) [[Num 1]] [False]
      = ([Num 2], [[Num 1]], [])"
    by (simp add: listEnv_def dgt_half_epsilon dropped_def dsub_def)
  from dropout_one_draw_per_element
    [where B = listEnv and ns = "[[Num 1, Num 1]]" and indexBeg = 0 and indexEnd = 1
      and inputs = "[[Num 5], [Num 7]]" and out = "[[Num 0], [Num 0]]" and d = "Num (1/2)"
      and dc = "Num 0" and pd = "Num (1/2)" and g = "[True, False]" and ns' = "[[Num 1, Num 1]]"
      and out' = "[[Num 0], [Num 2]]" and g' = "[]" and i = 0]
    mixedColumn dgt_half_epsilon
  have a: "\<exists>g0 result n1 g1.
      n_processToLearn listEnv ([[Num 1, Num 1]] ! 0) [[Num 5], [Num 7]] (Num 0) g0 =
        (result, n1, g1) \<and>
      (\<forall>j. j < length result \<longrightarrow>
         [[Num 0], [Num 2]] ! j ! 0 =
           (if drawAt listEnv (Num (1/2)) j g1 then Num 0
            else ddiv (result ! j) (dsub (Num 1) (Num (1/2)))))"
    by simp
  from dropout_one_draw_per_element
    [where B = listEnv and ns = "[[Num 1]]" and input = "[Num 5]" and d = "Num (1/2)"
      and dc = "Num 0" and pd = "Num (1/2)" and g = "[False]" and ys = "[Num 2]"
      and ms' = "[[Num 1]]" and h' = "[]" and i = 0]
    s
  have b: "\<exists>g0 x n1 g1. n_processToLearn1 listEnv ([[Num 1]] ! 0) [Num 5] (Num 0) g0 = (x, n1, g1) \<and>
      [Num 2] ! 0 =
        (if fst (bernoulli listEnv (Num (1/2)) g1) then Num 0
         else ddiv x (dsub (Num 1) (Num (1/2))))"
    by (simp add: dgt_half_epsilon)
  from a b show ?thesis
    by blast
qed

section \<open>Determinism (claim C5)\<close>






section \<open>Inference (claim C6)\<close>

lemma forward_Nil: "forward E [] inputs = inputs"
  by (simp add: forward_def)

lemma forward_snoc: "forward E (ls @ [l]) inputs = l_process E l (forward E ls inputs)"
  by (simp add: forward_def)

text \<open>
  Claim C6, amended. \<^verbatim>\<open>process\<close> composes the forward passes of the layers in order and
  applies softmax to the output of the last layer if and only if the loss is
  \<^verbatim>\<open>Loss::CrossEntropy\<close>; for \<^verbatim>\<open>L1\<close>, \<^verbatim>\<open>L2\<close> and \<^verbatim>\<open>BinaryCrossEntropy\<close> it returns the
  output of the last layer unchanged.
\<close>

theorem process_softmax_only_for_CrossEntropy:
  "(loss s = CrossEntropy \<longrightarrow> process E s inputs = softmax E (forward E (layers s) inputs)) \<and>
   (loss s \<noteq> CrossEntropy \<longrightarrow> process E s inputs = forward E (layers s) inputs) \<and>
   forward E [] inputs = inputs \<and>
   forward E (ls @ [l]) inputs = l_process E l (forward E ls inputs)"
  by (simp add: process_def forward_def)

text \<open>
  The claim as stated counts \<^verbatim>\<open>BinaryCrossEntropy\<close> among the losses that get softmax. With
  that loss and a layer whose output is \<open>[[0]]\<close>, \<^verbatim>\<open>process\<close> returns \<open>[[0]]\<close>, whereas the
  softmax of that output is \<open>[[1]]\<close>.
\<close>

theorem process_BinaryCrossEntropy_counterexample:
  "process toyEnv (toyNet BinaryCrossEntropy (Num 0) []) [[Num 1]] = [[Num 0]] \<and>
   softmax toyEnv (forward toyEnv (layers (toyNet BinaryCrossEntropy (Num 0) [])) [[Num 1]]) = [[Num 1]]"
  by (simp add: process_def forward_def toyNet_def toyEnv_def Network_def addLayer_def toyParam_def NetworkParam_def softmax_spec_0)

theorem process_softmax_only_for_CrossEntropy_witness:
  "process toyEnv (toyNet CrossEntropy (Num 0) []) [[Num 1]] = [[Num 1]] \<and>
   process toyEnv (toyNet BinaryCrossEntropy (Num 0) []) [[Num 1]] = [[Num 0]] \<and>
   process toyEnv (toyNet Loss_L2 (Num 0) []) [[Num 1]] = [[Num 0]]"
  using process_softmax_only_for_CrossEntropy [of "toyNet CrossEntropy (Num 0) []" toyEnv "[[Num 1]]" "[]" "Toy (Num 0) (Num 0) []"]
    process_softmax_only_for_CrossEntropy [of "toyNet BinaryCrossEntropy (Num 0) []" toyEnv "[[Num 1]]" "[]" "Toy (Num 0) (Num 0) []"]
    process_softmax_only_for_CrossEntropy [of "toyNet Loss_L2 (Num 0) []" toyEnv "[[Num 1]]" "[]" "Toy (Num 0) (Num 0) []"]
  by (simp add: forward_def toyNet_def toyEnv_def Network_def addLayer_def toyParam_def NetworkParam_def softmax_spec_0)

section \<open>Cross-entropy is taken against softmax (claim C7)\<close>



section \<open>Binary cross-entropy at the ends of the unit interval\<close>

text \<open>
  \<^verbatim>\<open>binaryCrossEntropyLoss\<close> takes \<^verbatim>\<open>log(predicted)\<close> and \<^verbatim>\<open>log(1 - predicted)\<close> and divides
  by \<^verbatim>\<open>predicted * (1 - predicted)\<close> without a guard. Where \<open>predicted\<close> is exactly 0 or exactly 1
  one logarithm is minus infinity and the divisor is exactly zero, so neither the loss nor the
  gradient at that position is a finite number, whatever \<open>real\<close> holds there. Inside the open
  interval the finiteness of the two outputs depends on the range of \<^verbatim>\<open>double\<close> (the quotient
  overflows for a small enough \<open>predicted\<close>), which these numeric values do not represent; nothing
  is stated about it.
\<close>

lemma binaryCrossEntropy_loss_singular:
  "p = Num 0 \<or> p = Num 1 \<Longrightarrow>
   \<not> isfinite (dneg (dadd (dmul r (dlog p)) (dmul (dsub (Num 1) r) (dlog (dsub (Num 1) p)))))"
  by (cases r) (auto simp: dsub_def inf_of_sign_def sgn_real_def split: if_splits)

lemma binaryCrossEntropy_gradient_singular:
  "p = Num 0 \<or> p = Num 1 \<Longrightarrow> \<not> isfinite (ddiv (dsub r p) (dmul p (dsub (Num 1) p)))"
  by (cases r) (auto simp: dsub_def inf_of_sign_def sgn_real_def split: if_splits)

lemma binaryCrossEntropyLoss_singular:
  assumes "binaryCrossEntropyLoss real' predicted = Inr (lossM, gradM)"
    and "i < lines real'" and "j < columns real'"
    and "predicted ! i ! j = Num 0 \<or> predicted ! i ! j = Num 1"
  shows "\<not> isfinite (lossM ! i ! j) \<and> \<not> isfinite (gradM ! i ! j)"
proof -
  from assms(1) have
    "lossM = elementwise (\<lambda>r p. dneg (dadd (dmul r (dlog p))
        (dmul (dsub (Num 1) r) (dlog (dsub (Num 1) p))))) real' predicted"
    "gradM = elementwise (\<lambda>r p. ddiv (dsub r p) (dmul p (dsub (Num 1) p))) real' predicted"
    by (auto simp: binaryCrossEntropyLoss_def lossPair_def split: if_splits)
  with assms(2-4) show ?thesis
    by (simp add: elementwise_nth binaryCrossEntropy_loss_singular
          binaryCrossEntropy_gradient_singular del: dlog.simps)
qed


section \<open>Regularisation in both losses (claim C10)\<close>









end
